theory Spec2Isabelle
  imports Complex_Main
begin

section \<open>Matching engine (task matcher module)\<close>

text \<open>
  Strings are lists of characters. The model covers ASCII text: \<open>toLowerCase\<close> maps
  \<open>A\<close>..\<open>Z\<close> to \<open>a\<close>..\<open>z\<close>, the regular expression class \<open>\w\<close> is
  \<open>[A-Za-z0-9_]\<close> and \<open>\s\<close> is space, tab, line feed, vertical tab, form feed and
  carriage return. JavaScript numbers are modelled as real numbers.
\<close>

datatype matchMethod = Exact | Fuzzy | Description

text \<open>
  The \<open>matchReason\<close> strings of the source, with the interpolated percentage
  \<open>Math.round(score * 100)\<close> kept as an integer.
\<close>

datatype matchReason =
    ExactNameMatch
  | NameContainsMatch
  | KeywordMatchInName int
  | DescriptionSimilarity int
  | NameFoundInDescription
  | FuzzyTextMatch
  | MatchFound

record MatchCandidate =
  mc_gid :: string
  mc_name :: string
  mc_confidence :: real
  mc_matchMethod :: matchMethod
  mc_matchReason :: "matchReason option"

record MatchableTask =
  mt_gid :: string
  mt_name :: string
  mt_description :: "string option"

record SuggestedMatch =
  sm_planeTaskId :: string
  sm_planeTaskName :: string
  sm_asanaTaskGid :: string
  sm_asanaTaskName :: string
  sm_confidence :: real
  sm_matchMethod :: matchMethod
  sm_matchReason :: matchReason

record PlaneTaskIn =
  pt_id :: string
  pt_name :: string
  pt_description :: "string option"

record AsanaTaskIn =
  at_gid :: string
  at_name :: string
  at_notes :: "string option"

subsection \<open>normalizeText\<close>

definition upper_chars :: string where
  "upper_chars = ''ABCDEFGHIJKLMNOPQRSTUVWXYZ''"

definition lower_chars :: string where
  "lower_chars = ''abcdefghijklmnopqrstuvwxyz''"

definition toLowerCase_char :: "char \<Rightarrow> char" where
  "toLowerCase_char c =
     (case map_of (zip upper_chars lower_chars) c of Some l \<Rightarrow> l | None \<Rightarrow> c)"

definition toLowerCase :: "string \<Rightarrow> string" where
  "toLowerCase s = map toLowerCase_char s"

definition is_word_char :: "char \<Rightarrow> bool" where
  "is_word_char c \<longleftrightarrow> c \<in> set (upper_chars @ lower_chars @ ''0123456789_'')"

definition is_space_char :: "char \<Rightarrow> bool" where
  "is_space_char c \<longleftrightarrow>
     c \<in> set [CHR '' '', CHR 0x09, CHR 0x0A, CHR 0x0B, CHR 0x0C, CHR 0x0D]"

text \<open>\<open>.replace(/[^\w\s]/g, " ")\<close>\<close>

definition replace_punct :: "string \<Rightarrow> string" where
  "replace_punct s =
     map (\<lambda>c. if is_word_char c \<or> is_space_char c then c else CHR '' '') s"

text \<open>\<open>.replace(/\s+/g, " ")\<close>: every maximal run of whitespace becomes one space.\<close>

fun collapse_ws :: "string \<Rightarrow> string" where
  "collapse_ws [] = []"
| "collapse_ws [c] = [if is_space_char c then CHR '' '' else c]"
| "collapse_ws (c # d # cs) =
     (if is_space_char c
      then (if is_space_char d then collapse_ws (d # cs)
            else CHR '' '' # collapse_ws (d # cs))
      else c # collapse_ws (d # cs))"

definition trim :: "string \<Rightarrow> string" where
  "trim s = rev (dropWhile is_space_char (rev (dropWhile is_space_char s)))"

definition normalizeText :: "string \<Rightarrow> string" where
  "normalizeText text = trim (collapse_ws (replace_punct (toLowerCase text)))"

subsection \<open>extractKeywords and keywordOverlapScore\<close>

definition stopWords :: "string list" where
  "stopWords =
    [''the'', ''and'', ''for'', ''with'', ''this'', ''that'', ''from'', ''have'', ''been'',
     ''will'', ''would'', ''could'', ''should'', ''about'', ''into'', ''through'', ''during'',
     ''before'', ''after'', ''above'', ''below'', ''between'', ''under'', ''again'', ''further'',
     ''then'', ''once'', ''here'', ''there'', ''when'', ''where'', ''what'', ''which'', ''while'',
     ''update'', ''create'', ''add'', ''remove'', ''delete'', ''change'', ''make'', ''need'',
     ''task'', ''issue'', ''item'', ''work'', ''project'']"

text \<open>\<open>s.split(" ")\<close>: the empty string splits into one empty word.\<close>

fun split_space :: "string \<Rightarrow> string list" where
  "split_space [] = [[]]"
| "split_space (c # cs) =
     (if c = CHR '' '' then [] # split_space cs
      else (case split_space cs of
              w # ws \<Rightarrow> (c # w) # ws
            | [] \<Rightarrow> [[c]]))"

definition extractKeywords :: "string \<Rightarrow> string set" where
  "extractKeywords text =
     set (filter (\<lambda>w. length w > 3 \<and> w \<notin> set stopWords)
            (split_space (normalizeText text)))"

definition keywordOverlapScore :: "string \<Rightarrow> string \<Rightarrow> real" where
  "keywordOverlapScore text1 text2 =
     (let keywords1 = extractKeywords text1;
          keywords2 = extractKeywords text2
      in if card keywords1 = 0 \<or> card keywords2 = 0 then 0
         else real (card (keywords1 \<inter> keywords2)) / real (card (keywords1 \<union> keywords2)))"

subsection \<open>findMatches\<close>

text \<open>\<open>s.includes(t)\<close>: \<open>t\<close> occurs in \<open>s\<close> as a contiguous substring.\<close>

fun js_includes :: "string \<Rightarrow> string \<Rightarrow> bool" where
  "js_includes [] t \<longleftrightarrow> t = []"
| "js_includes (c # cs) t \<longleftrightarrow> take (length t) (c # cs) = t \<or> js_includes cs t"

text \<open>A JavaScript string is truthy when it is present and not empty.\<close>

fun truthy :: "string option \<Rightarrow> bool" where
  "truthy None \<longleftrightarrow> False"
| "truthy (Some s) \<longleftrightarrow> s \<noteq> []"

text \<open>\<open>Math.round(x)\<close> rounds half up.\<close>

definition Math_round :: "real \<Rightarrow> int" where
  "Math_round x = \<lfloor>x + 1 / 2\<rfloor>"

text \<open>
  The body of the loop over the target tasks: the candidate pushed for one target, or
  \<open>None\<close> when the iteration pushes nothing.
\<close>

definition scoreTarget :: "string \<Rightarrow> string option \<Rightarrow> MatchableTask \<Rightarrow> MatchCandidate option" where
  "scoreTarget sourceName sourceDescription target =
    (let normalizedSource = normalizeText sourceName;
         normalizedTarget = normalizeText (mt_name target)
     in
     if normalizedSource = normalizedTarget then
       Some \<lparr>mc_gid = mt_gid target, mc_name = mt_name target, mc_confidence = 1,
             mc_matchMethod = Exact, mc_matchReason = Some ExactNameMatch\<rparr>
     else
     let shorter = min (length normalizedSource) (length normalizedTarget);
         longer = max (length normalizedSource) (length normalizedTarget);
         containmentScore = real shorter / real longer
     in
     if (js_includes normalizedSource normalizedTarget \<or> js_includes normalizedTarget normalizedSource)
        \<and> containmentScore > 0.5 then
       Some \<lparr>mc_gid = mt_gid target, mc_name = mt_name target,
             mc_confidence = 0.85 * containmentScore + 0.15,
             mc_matchMethod = Fuzzy, mc_matchReason = Some NameContainsMatch\<rparr>
     else
     let nameKeywordScore = keywordOverlapScore sourceName (mt_name target) in
     if nameKeywordScore \<ge> 0.4 then
       Some \<lparr>mc_gid = mt_gid target, mc_name = mt_name target,
             mc_confidence = min 0.9 (nameKeywordScore + 0.3),
             mc_matchMethod = Fuzzy,
             mc_matchReason = Some (KeywordMatchInName (Math_round (nameKeywordScore * 100)))\<rparr>
     else
     (case (sourceDescription, mt_description target) of
        (Some sdesc, Some tdesc) \<Rightarrow>
          if sdesc \<noteq> [] \<and> tdesc \<noteq> [] then
            (let descKeywordScore = keywordOverlapScore sdesc tdesc in
             if descKeywordScore \<ge> 0.3 then
               Some \<lparr>mc_gid = mt_gid target, mc_name = mt_name target,
                     mc_confidence = min 0.8 (descKeywordScore + 0.2),
                     mc_matchMethod = Description,
                     mc_matchReason =
                       Some (DescriptionSimilarity (Math_round (descKeywordScore * 100)))\<rparr>
             else
             let sourceNameInDesc = keywordOverlapScore sourceName tdesc;
                 targetNameInSourceDesc = keywordOverlapScore (mt_name target) sdesc;
                 crossScore = max sourceNameInDesc targetNameInSourceDesc
             in
             if crossScore \<ge> 0.3 then
               Some \<lparr>mc_gid = mt_gid target, mc_name = mt_name target,
                     mc_confidence = min 0.75 (crossScore + 0.15),
                     mc_matchMethod = Description,
                     mc_matchReason = Some NameFoundInDescription\<rparr>
             else None)
          else None
      | _ \<Rightarrow> None))"

text \<open>
  \<open>Array.prototype.sort\<close> is stable; with the comparator \<open>b.confidence - a.confidence\<close>
  it orders by descending confidence.
\<close>

definition sortByConfidence :: "MatchCandidate list \<Rightarrow> MatchCandidate list" where
  "sortByConfidence cs = sort_key (\<lambda>c. - mc_confidence c) cs"

definition candidatesOf :: "string \<Rightarrow> string option \<Rightarrow> MatchableTask list \<Rightarrow> MatchCandidate list" where
  "candidatesOf sourceName sourceDescription targetTasks =
     List.map_filter (scoreTarget sourceName sourceDescription) targetTasks"

definition findMatches ::
  "string \<Rightarrow> MatchableTask list \<Rightarrow> real \<Rightarrow> string option \<Rightarrow> MatchCandidate list" where
  "findMatches sourceName targetTasks threshold sourceDescription =
     take 5 (sortByConfidence
       (filter (\<lambda>c. mc_confidence c \<ge> threshold)
          (candidatesOf sourceName sourceDescription targetTasks)))"

subsection \<open>fuzzySearch and getBestMatch\<close>

text \<open>
  Fuse.js is an external library. Its search is a parameter: \<open>fuse query targetTasks t\<close>
  stands for \<open>new Fuse(targetTasks, {keys, threshold: t, includeScore: true}).search(query)\<close>
  and returns the matched items with their optional scores, best first.
\<close>

type_synonym FuseSearch =
  "string \<Rightarrow> MatchableTask list \<Rightarrow> real \<Rightarrow> (MatchableTask \<times> real option) list"

text \<open>\<open>r.score || 1\<close>: a missing score and the score \<open>0\<close> are both falsy.\<close>

definition scoreOr1 :: "real option \<Rightarrow> real" where
  "scoreOr1 sc = (case sc of None \<Rightarrow> 1 | Some x \<Rightarrow> if x = 0 then 1 else x)"

definition fuzzySearch :: "FuseSearch \<Rightarrow> string \<Rightarrow> MatchableTask list \<Rightarrow> real \<Rightarrow> MatchCandidate list" where
  "fuzzySearch fuse query targetTasks threshold =
     map (\<lambda>r. \<lparr>mc_gid = mt_gid (fst r), mc_name = mt_name (fst r),
                mc_confidence = 1 - scoreOr1 (snd r),
                mc_matchMethod = Fuzzy, mc_matchReason = Some FuzzyTextMatch\<rparr>)
       (take 5 (fuse query targetTasks (1 - threshold)))"

definition getBestMatch ::
  "FuseSearch \<Rightarrow> string \<Rightarrow> MatchableTask list \<Rightarrow> real \<Rightarrow> string option \<Rightarrow> MatchCandidate option" where
  "getBestMatch fuse sourceName targetTasks minConfidence sourceDescription =
     (let matches = findMatches sourceName targetTasks minConfidence sourceDescription;
          fuzzyMatches = fuzzySearch fuse sourceName targetTasks minConfidence
      in case matches of
           m # _ \<Rightarrow>
             if mc_confidence m \<ge> minConfidence then Some m
             else (case fuzzyMatches of
                     f # _ \<Rightarrow> if mc_confidence f \<ge> minConfidence then Some f else None
                   | [] \<Rightarrow> None)
         | [] \<Rightarrow>
             (case fuzzyMatches of
                f # _ \<Rightarrow> if mc_confidence f \<ge> minConfidence then Some f else None
              | [] \<Rightarrow> None))"

subsection \<open>autoMatchAllTasks\<close>

definition toMatchable :: "AsanaTaskIn \<Rightarrow> MatchableTask" where
  "toMatchable t = \<lparr>mt_gid = at_gid t, mt_name = at_name t, mt_description = at_notes t\<rparr>"

definition mkSuggestion :: "PlaneTaskIn \<Rightarrow> MatchCandidate \<Rightarrow> SuggestedMatch" where
  "mkSuggestion planeTask bestMatch =
     \<lparr>sm_planeTaskId = pt_id planeTask,
      sm_planeTaskName = pt_name planeTask,
      sm_asanaTaskGid = mc_gid bestMatch,
      sm_asanaTaskName = mc_name bestMatch,
      sm_confidence = mc_confidence bestMatch,
      sm_matchMethod = mc_matchMethod bestMatch,
      sm_matchReason = (case mc_matchReason bestMatch of Some r \<Rightarrow> r | None \<Rightarrow> MatchFound)\<rparr>"

text \<open>
  The loop over the Plane tasks, with the mutable \<open>suggestions\<close> array and
  \<open>usedAsanaGids\<close> set as the threaded state.
\<close>

fun autoMatchLoop ::
  "FuseSearch \<Rightarrow> MatchableTask list \<Rightarrow> string set \<Rightarrow> real \<Rightarrow> PlaneTaskIn list
    \<Rightarrow> SuggestedMatch list \<times> string set \<Rightarrow> SuggestedMatch list \<times> string set" where
  "autoMatchLoop fuse matchableAsanaTasks alreadyLinkedPlaneIds minConfidence []
     (suggestions, usedAsanaGids) = (suggestions, usedAsanaGids)"
| "autoMatchLoop fuse matchableAsanaTasks alreadyLinkedPlaneIds minConfidence (planeTask # rest)
     (suggestions, usedAsanaGids) =
     (if pt_id planeTask \<in> alreadyLinkedPlaneIds then
        autoMatchLoop fuse matchableAsanaTasks alreadyLinkedPlaneIds minConfidence rest
          (suggestions, usedAsanaGids)
      else
        let availableTasks = filter (\<lambda>t. mt_gid t \<notin> usedAsanaGids) matchableAsanaTasks in
        if availableTasks = [] then
          autoMatchLoop fuse matchableAsanaTasks alreadyLinkedPlaneIds minConfidence rest
            (suggestions, usedAsanaGids)
        else
          (case getBestMatch fuse (pt_name planeTask) availableTasks minConfidence
                  (pt_description planeTask) of
             Some bestMatch \<Rightarrow>
               autoMatchLoop fuse matchableAsanaTasks alreadyLinkedPlaneIds minConfidence rest
                 (suggestions @ [mkSuggestion planeTask bestMatch],
                  insert (mc_gid bestMatch) usedAsanaGids)
           | None \<Rightarrow>
               autoMatchLoop fuse matchableAsanaTasks alreadyLinkedPlaneIds minConfidence rest
                 (suggestions, usedAsanaGids)))"

definition autoMatchAllTasks ::
  "FuseSearch \<Rightarrow> PlaneTaskIn list \<Rightarrow> AsanaTaskIn list \<Rightarrow> string set \<Rightarrow> string set \<Rightarrow> real
    \<Rightarrow> SuggestedMatch list" where
  "autoMatchAllTasks fuse planeTasks asanaTasks alreadyLinkedPlaneIds alreadyLinkedAsanaGids
     minConfidence =
     (let matchableAsanaTasks =
            map toMatchable (filter (\<lambda>t. at_gid t \<notin> alreadyLinkedAsanaGids) asanaTasks);
          suggestions =
            fst (autoMatchLoop fuse matchableAsanaTasks alreadyLinkedPlaneIds minConfidence
                   planeTasks ([], alreadyLinkedAsanaGids))
      in sort_key (\<lambda>s. - sm_confidence s) suggestions)"

section \<open>Change-detection engine (changes route)\<close>

text \<open>
  Instants are milliseconds. The timestamp string of a remote record is absent or empty
  (falsy), or not empty but not a date, or it denotes an instant. \<open>new Date(s)\<close> of
  a string that is not a date is the invalid date, and every comparison with the invalid
  date is false. The two remote systems and the database are explicit values: a rejected
  remote call is \<open>None\<close>, and the database operations are total and store the date
  they are given.
\<close>

type_synonym timestamp = nat

datatype timeString = NoTime | Unparsable | TimeAt timestamp

datatype jsDate = InvalidDate | DateAt timestamp

text \<open>\<open>new Date(s)\<close>\<close>

fun newDate :: "timeString \<Rightarrow> jsDate" where
  "newDate NoTime = InvalidDate"
| "newDate Unparsable = InvalidDate"
| "newDate (TimeAt t) = DateAt t"

text \<open>\<open>s ? new Date(s) : null\<close>\<close>

fun dateOrNull :: "timeString \<Rightarrow> jsDate option" where
  "dateOrNull NoTime = None"
| "dateOrNull s = Some (newDate s)"

text \<open>\<open>d > e\<close> on two dates compares their time values; \<open>NaN\<close> is never greater.\<close>

fun dateGreater :: "jsDate \<Rightarrow> jsDate \<Rightarrow> bool" where
  "dateGreater (DateAt u) (DateAt m) \<longleftrightarrow> u > m"
| "dateGreater _ _ \<longleftrightarrow> False"

record PlaneIssue =
  pi_id :: string
  pi_name :: string
  pi_description_stripped :: "string option"
  pi_state_detail_name :: "string option"
  pi_updated_at :: timeString

record AsanaTask =
  as_gid :: string
  as_name :: string
  as_notes :: "string option"
  as_completed :: bool
  as_modified_at :: timeString

record ProjectMapping =
  pm_id :: string
  pm_planeProjectId :: string
  pm_asanaProjectGid :: string
  pm_asanaSectionName :: "string option"

record TaskMapping =
  tm_id :: string
  tm_projectMappingId :: string
  tm_planeIssueId :: "string option"
  tm_asanaTaskGid :: "string option"

record TaskSnapshot =
  sn_planeName :: "string option"
  sn_planeDescription :: "string option"
  sn_planeState :: "string option"
  sn_planeModifiedAt :: "jsDate option"
  sn_planeCommentsCount :: "nat option"
  sn_asanaName :: "string option"
  sn_asanaDescription :: "string option"
  sn_asanaCompleted :: "bool option"
  sn_asanaModifiedAt :: "jsDate option"
  sn_asanaCommentsCount :: "nat option"

datatype source = Plane | Asana

record Change =
  ch_taskMappingId :: string
  ch_planeIssueId :: "string option"
  ch_planeIssueName :: "string option"
  ch_asanaTaskGid :: "string option"
  ch_asanaTaskName :: "string option"
  ch_field :: string
  ch_oldValue :: "string option"
  ch_newValue :: "string option"
  ch_source :: source
  ch_changedAt :: "jsDate option"

record ChangeLogRow =
  cl_projectMappingId :: string
  cl_taskMappingId :: string
  cl_planeIssueId :: "string option"
  cl_planeIssueName :: "string option"
  cl_asanaTaskGid :: "string option"
  cl_asanaTaskName :: "string option"
  cl_source :: source
  cl_field :: string
  cl_oldValue :: "string option"
  cl_newValue :: "string option"
  cl_changedAt :: "jsDate option"

text \<open>
  The database: the \<open>ProjectMapping\<close> and \<open>TaskMapping\<close> tables as row lists,
  the \<open>TaskSnapshot\<close> table as a map from its unique \<open>taskMappingId\<close>, and
  the append-only \<open>ChangeLog\<close> table.
\<close>

record Db =
  db_projectMappings :: "ProjectMapping list"
  db_taskMappings :: "TaskMapping list"
  db_snapshots :: "string \<rightharpoonup> TaskSnapshot"
  db_changeLog :: "ChangeLogRow list"

text \<open>
  The remote clients. \<open>plane_listComments\<close> and \<open>asana_listTaskStories\<close> give
  the length of the returned list, the only part of it the route reads.
\<close>

record Remote =
  plane_listIssues :: "string \<Rightarrow> PlaneIssue list option"
  asana_listTasks :: "string \<Rightarrow> string option \<Rightarrow> AsanaTask list option"
  plane_listComments :: "string \<Rightarrow> string \<Rightarrow> nat option"
  asana_listTaskStories :: "string \<Rightarrow> nat option"

subsection \<open>fetchCommentCountsBatched\<close>

datatype request = PlaneComments string string | AsanaStories string

text \<open>
  What the fetcher does, in program order: it starts the requests of one batch, awaits
  \<open>Promise.all\<close> of them, and awaits \<open>delay(ms)\<close>.
\<close>

datatype event = Issue "request list" | AwaitAll | Delay nat

record PairIds =
  pr_planeIssueId :: "string option"
  pr_asanaTaskGid :: "string option"

record OnlyModified =
  om_planeIds :: "string set"
  om_asanaIds :: "string set"

record CommentCounts =
  cc_plane :: "string \<rightharpoonup> nat"
  cc_asana :: "string \<rightharpoonup> nat"

definition BATCH_SIZE :: nat where
  "BATCH_SIZE = 3"

definition BATCH_DELAY :: nat where
  "BATCH_DELAY = 1500"

text \<open>\<open>id && (!onlyModified || onlyModified.ids.has(id))\<close>\<close>

definition wanted :: "string option \<Rightarrow> string set option \<Rightarrow> bool" where
  "wanted ident ids =
     (case ident of
        None \<Rightarrow> False
      | Some i \<Rightarrow> i \<noteq> [] \<and> (case ids of None \<Rightarrow> True | Some S \<Rightarrow> i \<in> S))"

definition tasksToFetch :: "PairIds list \<Rightarrow> OnlyModified option \<Rightarrow> PairIds list" where
  "tasksToFetch tasks onlyModified =
     (case onlyModified of
        Some m \<Rightarrow>
          filter (\<lambda>t. wanted (pr_planeIssueId t) (Some (om_planeIds m))
                    \<or> wanted (pr_asanaTaskGid t) (Some (om_asanaIds m))) tasks
      | None \<Rightarrow> tasks)"

text \<open>The promises that one pair of a batch contributes to the \<open>flatMap\<close>.\<close>

definition pairRequests :: "string \<Rightarrow> OnlyModified option \<Rightarrow> PairIds \<Rightarrow> request list" where
  "pairRequests projectId onlyModified t =
     (case pr_planeIssueId t of
        Some p \<Rightarrow>
          if wanted (Some p) (map_option om_planeIds onlyModified)
          then [PlaneComments projectId p] else []
      | None \<Rightarrow> [])
     @
     (case pr_asanaTaskGid t of
        Some a \<Rightarrow>
          if wanted (Some a) (map_option om_asanaIds onlyModified)
          then [AsanaStories a] else []
      | None \<Rightarrow> [])"

definition batchRequests :: "string \<Rightarrow> OnlyModified option \<Rightarrow> PairIds list \<Rightarrow> request list" where
  "batchRequests projectId onlyModified batch =
     concat (map (pairRequests projectId onlyModified) batch)"

text \<open>
  The \<open>then\<close>/\<open>catch\<close> handlers of one request: the length of the answer is
  stored, and a rejection stores \<open>0\<close>.
\<close>

fun settle :: "Remote \<Rightarrow> CommentCounts \<Rightarrow> request \<Rightarrow> CommentCounts" where
  "settle remote cc (PlaneComments projectId p) =
     cc\<lparr>cc_plane := (cc_plane cc)
            (p \<mapsto> (case plane_listComments remote projectId p of Some n \<Rightarrow> n | None \<Rightarrow> 0))\<rparr>"
| "settle remote cc (AsanaStories a) =
     cc\<lparr>cc_asana := (cc_asana cc)
            (a \<mapsto> (case asana_listTaskStories remote a of Some n \<Rightarrow> n | None \<Rightarrow> 0))\<rparr>"

text \<open>
  The batching loop \<open>for (let i = 0; i < tasksToFetch.length; i += BATCH_SIZE)\<close>.
  The handlers of a batch run in the order the requests were started; the remote answers
  do not depend on that order.
\<close>

function fetchBatches ::
  "Remote \<Rightarrow> string \<Rightarrow> OnlyModified option \<Rightarrow> PairIds list \<Rightarrow> nat
    \<Rightarrow> CommentCounts \<times> event list \<Rightarrow> CommentCounts \<times> event list" where
  "fetchBatches remote projectId onlyModified toFetch i (cc, evs) =
     (if i < length toFetch then
        let batch = take BATCH_SIZE (drop i toFetch);
            promises = batchRequests projectId onlyModified batch;
            cc' = foldl (settle remote) cc promises;
            evs' = evs @ [Issue promises, AwaitAll]
                     @ (if i + BATCH_SIZE < length toFetch then [Delay BATCH_DELAY] else [])
        in fetchBatches remote projectId onlyModified toFetch (i + BATCH_SIZE) (cc', evs')
      else (cc, evs))"
  by pat_completeness auto
termination
  by (relation "measure (\<lambda>(remote, projectId, onlyModified, toFetch, i, st). length toFetch - i)")
     (auto simp: BATCH_SIZE_def)

declare fetchBatches.simps [simp del]

definition fetchCommentCountsBatched ::
  "Remote \<Rightarrow> string \<Rightarrow> PairIds list \<Rightarrow> OnlyModified option \<Rightarrow> CommentCounts \<times> event list" where
  "fetchCommentCountsBatched remote projectId tasks onlyModified =
     fetchBatches remote projectId onlyModified (tasksToFetch tasks onlyModified) 0
       (\<lparr>cc_plane = Map.empty, cc_asana = Map.empty\<rparr>, [])"

subsection \<open>Shared helpers of the two route handlers\<close>

datatype 'a response = Ok 'a | NotFound | ServerError

text \<open>\<open>prisma.projectMapping.findUnique({ where: { id: mappingId } })\<close>\<close>

definition findProjectMapping :: "Db \<Rightarrow> string \<Rightarrow> ProjectMapping option" where
  "findProjectMapping db mappingId = find (\<lambda>m. pm_id m = mappingId) (db_projectMappings db)"

text \<open>
  \<open>prisma.taskMapping.findMany\<close> with both identifiers not null; the included
  snapshot of a row is \<open>db_snapshots db (tm_id tm)\<close>.
\<close>

definition linkedTaskMappings :: "Db \<Rightarrow> string \<Rightarrow> TaskMapping list" where
  "linkedTaskMappings db mappingId =
     filter (\<lambda>tm. tm_projectMappingId tm = mappingId
                 \<and> tm_planeIssueId tm \<noteq> None \<and> tm_asanaTaskGid tm \<noteq> None)
       (db_taskMappings db)"

text \<open>\<open>new Map(xs.map(x => [key(x), x]))\<close>: a later entry replaces an earlier one.\<close>

definition lookupMap :: "('a \<Rightarrow> string) \<Rightarrow> 'a list \<Rightarrow> (string \<rightharpoonup> 'a)" where
  "lookupMap key xs = foldl (\<lambda>m x. m(key x \<mapsto> x)) Map.empty xs"

text \<open>\<open>new Set(xs)\<close> iterates in insertion order, each element once.\<close>

definition setOrder :: "'a list \<Rightarrow> 'a list" where
  "setOrder xs = rev (remdups (rev xs))"

text \<open>\<open>s || ""\<close> and \<open>s || null\<close> on an optional string.\<close>

definition orEmpty :: "string option \<Rightarrow> string" where
  "orEmpty s = (case s of None \<Rightarrow> [] | Some x \<Rightarrow> x)"

definition orNull :: "string option \<Rightarrow> string option" where
  "orNull s = (case s of None \<Rightarrow> None | Some x \<Rightarrow> if x = [] then None else Some x)"

text \<open>
  The prologue of every loop over the task mappings: a row with a falsy identifier is
  skipped, and a row whose issue or task is absent from the bulk listing is missing.
\<close>

datatype resolved = Unlinked | Missing | Live string string PlaneIssue AsanaTask

definition resolve ::
  "(string \<rightharpoonup> PlaneIssue) \<Rightarrow> (string \<rightharpoonup> AsanaTask) \<Rightarrow> TaskMapping \<Rightarrow> resolved" where
  "resolve planeIssueMap asanaTaskMap tm =
     (case (tm_planeIssueId tm, tm_asanaTaskGid tm) of
        (Some p, Some a) \<Rightarrow>
          if p = [] \<or> a = [] then Unlinked
          else (case (planeIssueMap p, asanaTaskMap a) of
                  (Some planeIssue, Some asanaTask) \<Rightarrow> Live p a planeIssue asanaTask
                | _ \<Rightarrow> Missing)
      | _ \<Rightarrow> Unlinked)"

text \<open>The data written by both \<open>prisma.taskSnapshot.upsert\<close> calls.\<close>

definition snapshotOf :: "PlaneIssue \<Rightarrow> AsanaTask \<Rightarrow> nat \<Rightarrow> nat \<Rightarrow> TaskSnapshot" where
  "snapshotOf planeIssue asanaTask planeCommentsCount asanaCommentsCount =
     \<lparr>sn_planeName = Some (pi_name planeIssue),
      sn_planeDescription = Some (orEmpty (pi_description_stripped planeIssue)),
      sn_planeState = orNull (pi_state_detail_name planeIssue),
      sn_planeModifiedAt = dateOrNull (pi_updated_at planeIssue),
      sn_planeCommentsCount = Some planeCommentsCount,
      sn_asanaName = Some (as_name asanaTask),
      sn_asanaDescription = Some (orEmpty (as_notes asanaTask)),
      sn_asanaCompleted = Some (as_completed asanaTask),
      sn_asanaModifiedAt = dateOrNull (as_modified_at asanaTask),
      sn_asanaCommentsCount = Some asanaCommentsCount\<rparr>"

definition pairIdsOf :: "TaskMapping \<Rightarrow> PairIds" where
  "pairIdsOf tm = \<lparr>pr_planeIssueId = tm_planeIssueId tm, pr_asanaTaskGid = tm_asanaTaskGid tm\<rparr>"

subsection \<open>GET: detectChanges\<close>

text \<open>Decimal rendering of a count inside a template string.\<close>

function string_of_nat :: "nat \<Rightarrow> string" where
  "string_of_nat n =
     (if n < 10 then [''0123456789'' ! n]
      else string_of_nat (n div 10) @ [''0123456789'' ! (n mod 10)])"
  by pat_completeness auto
termination
  by (relation "measure id") auto

declare string_of_nat.simps [simp del]

definition commentsText :: "nat option \<Rightarrow> string" where
  "commentsText c =
     (case c of None \<Rightarrow> ''null'' | Some n \<Rightarrow> string_of_nat n) @ '' comments''"

text \<open>\<open>d.substring(0, 100) + (d.length > 100 ? "..." : "")\<close>\<close>

definition truncate100 :: "string \<Rightarrow> string" where
  "truncate100 d = take 100 d @ (if length d > 100 then ''...'' else [])"

definition createChange ::
  "TaskMapping \<Rightarrow> PlaneIssue \<Rightarrow> AsanaTask \<Rightarrow> string \<Rightarrow> string option \<Rightarrow> string option
    \<Rightarrow> source \<Rightarrow> jsDate option \<Rightarrow> Change" where
  "createChange tm planeIssue asanaTask field oldValue newValue src changedAt =
     \<lparr>ch_taskMappingId = tm_id tm,
      ch_planeIssueId = tm_planeIssueId tm,
      ch_planeIssueName = Some (pi_name planeIssue),
      ch_asanaTaskGid = tm_asanaTaskGid tm,
      ch_asanaTaskName = Some (as_name asanaTask),
      ch_field = field,
      ch_oldValue = oldValue,
      ch_newValue = newValue,
      ch_source = src,
      ch_changedAt = changedAt\<rparr>"

text \<open>
  First pass: the Plane identifiers modified since their snapshot and the Asana
  identifiers whose snapshot has a baseline comment count.
\<close>

definition planeModified :: "PlaneIssue \<Rightarrow> TaskSnapshot \<Rightarrow> bool" where
  "planeModified planeIssue snapshot =
     (case sn_planeModifiedAt snapshot of
        Some modifiedAt \<Rightarrow>
          if pi_updated_at planeIssue \<noteq> NoTime
          then dateGreater (newDate (pi_updated_at planeIssue)) modifiedAt
          else True
      | None \<Rightarrow> True)"

definition firstPassStep ::
  "(string \<rightharpoonup> PlaneIssue) \<Rightarrow> (string \<rightharpoonup> AsanaTask) \<Rightarrow> (string \<rightharpoonup> TaskSnapshot)
    \<Rightarrow> string set \<times> string set \<Rightarrow> TaskMapping \<Rightarrow> string set \<times> string set" where
  "firstPassStep planeIssueMap asanaTaskMap snapshots acc tm =
     (case acc of (modifiedPlaneIds, asanaIdsToCheck) \<Rightarrow>
      (case resolve planeIssueMap asanaTaskMap tm of
         Live p a planeIssue asanaTask \<Rightarrow>
           (case snapshots (tm_id tm) of
              Some snapshot \<Rightarrow>
                ((if planeModified planeIssue snapshot
                  then insert p modifiedPlaneIds else modifiedPlaneIds),
                 (if sn_asanaCommentsCount snapshot \<noteq> None
                  then insert a asanaIdsToCheck else asanaIdsToCheck))
            | None \<Rightarrow> (modifiedPlaneIds, asanaIdsToCheck))
       | _ \<Rightarrow> (modifiedPlaneIds, asanaIdsToCheck)))"

definition firstPass ::
  "(string \<rightharpoonup> PlaneIssue) \<Rightarrow> (string \<rightharpoonup> AsanaTask) \<Rightarrow> (string \<rightharpoonup> TaskSnapshot)
    \<Rightarrow> TaskMapping list \<Rightarrow> string set \<times> string set" where
  "firstPass planeIssueMap asanaTaskMap snapshots taskMappings =
     foldl (firstPassStep planeIssueMap asanaTaskMap snapshots) ({}, {}) taskMappings"

text \<open>Second pass: the field comparisons of one pair against its snapshot.\<close>

definition planeDiff ::
  "TaskMapping \<Rightarrow> PlaneIssue \<Rightarrow> AsanaTask \<Rightarrow> TaskSnapshot \<Rightarrow> nat option \<Rightarrow> Change list" where
  "planeDiff tm planeIssue asanaTask snapshot currentPlaneComments =
     (let changedAt = dateOrNull (pi_updated_at planeIssue);
          currentPlaneDesc = orEmpty (pi_description_stripped planeIssue);
          snapshotPlaneDesc = orEmpty (sn_planeDescription snapshot);
          currentState = orNull (pi_state_detail_name planeIssue)
      in
      (if sn_planeName snapshot \<noteq> Some (pi_name planeIssue)
       then [createChange tm planeIssue asanaTask ''name''
               (sn_planeName snapshot) (Some (pi_name planeIssue)) Plane changedAt]
       else [])
      @
      (if snapshotPlaneDesc \<noteq> currentPlaneDesc
       then [createChange tm planeIssue asanaTask ''description''
               (Some (truncate100 snapshotPlaneDesc)) (Some (truncate100 currentPlaneDesc))
               Plane changedAt]
       else [])
      @
      (if sn_planeState snapshot \<noteq> currentState
       then [createChange tm planeIssue asanaTask ''state''
               (sn_planeState snapshot) currentState Plane changedAt]
       else [])
      @
      (case currentPlaneComments of
         Some c \<Rightarrow>
           if sn_planeCommentsCount snapshot \<noteq> Some c
           then [createChange tm planeIssue asanaTask ''comments''
                   (Some (commentsText (sn_planeCommentsCount snapshot)))
                   (Some (commentsText (Some c))) Plane changedAt]
           else []
       | None \<Rightarrow> []))"

definition completedText :: "bool \<Rightarrow> string" where
  "completedText b = (if b then ''Completed'' else ''Open'')"

definition asanaDiff ::
  "TaskMapping \<Rightarrow> PlaneIssue \<Rightarrow> AsanaTask \<Rightarrow> TaskSnapshot \<Rightarrow> nat option \<Rightarrow> Change list" where
  "asanaDiff tm planeIssue asanaTask snapshot currentAsanaComments =
     (let changedAt = dateOrNull (as_modified_at asanaTask);
          currentAsanaDesc = orEmpty (as_notes asanaTask);
          snapshotAsanaDesc = orEmpty (sn_asanaDescription snapshot)
      in
      (if sn_asanaName snapshot \<noteq> Some (as_name asanaTask)
       then [createChange tm planeIssue asanaTask ''name''
               (sn_asanaName snapshot) (Some (as_name asanaTask)) Asana changedAt]
       else [])
      @
      (if snapshotAsanaDesc \<noteq> currentAsanaDesc
       then [createChange tm planeIssue asanaTask ''description''
               (Some (truncate100 snapshotAsanaDesc)) (Some (truncate100 currentAsanaDesc))
               Asana changedAt]
       else [])
      @
      (if sn_asanaCompleted snapshot \<noteq> Some (as_completed asanaTask)
       then [createChange tm planeIssue asanaTask ''completed''
               (Some (completedText (sn_asanaCompleted snapshot = Some True)))
               (Some (completedText (as_completed asanaTask))) Asana changedAt]
       else [])
      @
      (case currentAsanaComments of
         Some c \<Rightarrow>
           if sn_asanaCommentsCount snapshot \<noteq> Some c
           then [createChange tm planeIssue asanaTask ''comments''
                   (Some (commentsText (sn_asanaCommentsCount snapshot)))
                   (Some (commentsText (Some c))) Asana changedAt]
           else []
       | None \<Rightarrow> []))"

definition newChange :: "TaskMapping \<Rightarrow> PlaneIssue \<Rightarrow> AsanaTask \<Rightarrow> timestamp \<Rightarrow> Change" where
  "newChange tm planeIssue asanaTask now =
     createChange tm planeIssue asanaTask ''new'' None
       (Some ''New linked task - click Take Snapshot to start tracking'') Plane
       (Some (DateAt now))"

definition secondPassStep ::
  "timestamp \<Rightarrow> CommentCounts \<Rightarrow> (string \<rightharpoonup> PlaneIssue) \<Rightarrow> (string \<rightharpoonup> AsanaTask)
    \<Rightarrow> (string \<rightharpoonup> TaskSnapshot) \<Rightarrow> Change list \<times> Change list \<times> nat \<Rightarrow> TaskMapping
    \<Rightarrow> Change list \<times> Change list \<times> nat" where
  "secondPassStep now commentCounts planeIssueMap asanaTaskMap snapshots acc tm =
     (case acc of (planeChanges, asanaChanges, missingCount) \<Rightarrow>
      (case resolve planeIssueMap asanaTaskMap tm of
         Unlinked \<Rightarrow> (planeChanges, asanaChanges, missingCount)
       | Missing \<Rightarrow> (planeChanges, asanaChanges, missingCount + 1)
       | Live p a planeIssue asanaTask \<Rightarrow>
           (case snapshots (tm_id tm) of
              Some snapshot \<Rightarrow>
                (planeChanges @ planeDiff tm planeIssue asanaTask snapshot
                                  (cc_plane commentCounts p),
                 asanaChanges @ asanaDiff tm planeIssue asanaTask snapshot
                                  (cc_asana commentCounts a),
                 missingCount)
            | None \<Rightarrow>
                (planeChanges @ [newChange tm planeIssue asanaTask now],
                 asanaChanges, missingCount))))"

definition secondPass ::
  "timestamp \<Rightarrow> CommentCounts \<Rightarrow> (string \<rightharpoonup> PlaneIssue) \<Rightarrow> (string \<rightharpoonup> AsanaTask)
    \<Rightarrow> (string \<rightharpoonup> TaskSnapshot) \<Rightarrow> TaskMapping list \<Rightarrow> Change list \<times> Change list \<times> nat" where
  "secondPass now commentCounts planeIssueMap asanaTaskMap snapshots taskMappings =
     foldl (secondPassStep now commentCounts planeIssueMap asanaTaskMap snapshots)
       ([], [], 0) taskMappings"

definition toLogRow :: "string \<Rightarrow> Change \<Rightarrow> ChangeLogRow" where
  "toLogRow mappingId change =
     \<lparr>cl_projectMappingId = mappingId,
      cl_taskMappingId = ch_taskMappingId change,
      cl_planeIssueId = ch_planeIssueId change,
      cl_planeIssueName = ch_planeIssueName change,
      cl_asanaTaskGid = ch_asanaTaskGid change,
      cl_asanaTaskName = ch_asanaTaskName change,
      cl_source = ch_source change,
      cl_field = ch_field change,
      cl_oldValue = ch_oldValue change,
      cl_newValue = ch_newValue change,
      cl_changedAt = ch_changedAt change\<rparr>"

text \<open>\<open>a ?? b ?? 0\<close> on the fetched count and the count of the loaded snapshot.\<close>

definition countOr :: "nat option \<Rightarrow> nat option \<Rightarrow> nat" where
  "countOr fetched stored =
     (case fetched of
        Some c \<Rightarrow> c
      | None \<Rightarrow> (case stored of Some c \<Rightarrow> c | None \<Rightarrow> 0))"

text \<open>
  One iteration of the loop over \<open>changedTaskIds\<close>. The snapshot read through
  \<open>tm.snapshot\<close> is the one loaded at the start of the request.
\<close>

definition updateSnapshotStep ::
  "CommentCounts \<Rightarrow> (string \<rightharpoonup> PlaneIssue) \<Rightarrow> (string \<rightharpoonup> AsanaTask)
    \<Rightarrow> (string \<rightharpoonup> TaskSnapshot) \<Rightarrow> TaskMapping list
    \<Rightarrow> (string \<rightharpoonup> TaskSnapshot) \<Rightarrow> string \<Rightarrow> (string \<rightharpoonup> TaskSnapshot)" where
  "updateSnapshotStep commentCounts planeIssueMap asanaTaskMap loaded taskMappings store taskId =
     (case find (\<lambda>t. tm_id t = taskId) taskMappings of
        None \<Rightarrow> store
      | Some tm \<Rightarrow>
          (case resolve planeIssueMap asanaTaskMap tm of
             Live p a planeIssue asanaTask \<Rightarrow>
               (let planeCommentsCount =
                      countOr (cc_plane commentCounts p)
                        (case loaded (tm_id tm) of
                           Some s \<Rightarrow> sn_planeCommentsCount s | None \<Rightarrow> None);
                    asanaCommentsCount =
                      countOr (cc_asana commentCounts a)
                        (case loaded (tm_id tm) of
                           Some s \<Rightarrow> sn_asanaCommentsCount s | None \<Rightarrow> None)
                in store(taskId \<mapsto>
                     snapshotOf planeIssue asanaTask planeCommentsCount asanaCommentsCount))
           | _ \<Rightarrow> store))"

record ChangesResponse =
  cr_planeChanges :: "Change list"
  cr_asanaChanges :: "Change list"
  cr_summaryPlaneChanges :: nat
  cr_summaryAsanaChanges :: nat
  cr_totalLinked :: nat
  cr_missing :: "nat option"
  cr_logged :: "nat option"

text \<open>
  The GET handler. It returns the database after the request, the response and the
  events of the comment fetch. \<open>now\<close> is the clock read by \<open>new Date()\<close>.
\<close>

definition detectChanges ::
  "Db \<Rightarrow> Remote \<Rightarrow> string \<Rightarrow> timestamp \<Rightarrow> Db \<times> ChangesResponse response \<times> event list" where
  "detectChanges db remote mappingId now =
     (case findProjectMapping db mappingId of
        None \<Rightarrow> (db, NotFound, [])
      | Some mapping \<Rightarrow>
        let taskMappings = linkedTaskMappings db mappingId in
        if taskMappings = [] then
          (db, Ok \<lparr>cr_planeChanges = [], cr_asanaChanges = [],
                   cr_summaryPlaneChanges = 0, cr_summaryAsanaChanges = 0,
                   cr_totalLinked = 0, cr_missing = None, cr_logged = None\<rparr>, [])
        else
        (case (plane_listIssues remote (pm_planeProjectId mapping),
               asana_listTasks remote (pm_asanaProjectGid mapping)
                 (orNull (pm_asanaSectionName mapping))) of
           (Some planeIssues, Some asanaTasks) \<Rightarrow>
             let planeIssueMap = lookupMap pi_id planeIssues;
                 asanaTaskMap = lookupMap as_gid asanaTasks;
                 snapshots = db_snapshots db;
                 (modifiedPlaneIds, asanaIdsToCheck) =
                    firstPass planeIssueMap asanaTaskMap snapshots taskMappings;
                 (commentCounts, events) =
                    (if modifiedPlaneIds \<noteq> {} \<or> asanaIdsToCheck \<noteq> {}
                     then fetchCommentCountsBatched remote (pm_planeProjectId mapping)
                            (map pairIdsOf taskMappings)
                            (Some \<lparr>om_planeIds = modifiedPlaneIds,
                                   om_asanaIds = asanaIdsToCheck\<rparr>)
                     else (\<lparr>cc_plane = Map.empty, cc_asana = Map.empty\<rparr>, []));
                 (planeChanges, asanaChanges, missingCount) =
                    secondPass now commentCounts planeIssueMap asanaTaskMap snapshots taskMappings;
                 allChanges = filter (\<lambda>c. ch_field c \<noteq> ''new'') (planeChanges @ asanaChanges);
                 db' =
                   (if allChanges \<noteq> [] then
                      db\<lparr>db_changeLog := db_changeLog db @ map (toLogRow mappingId) allChanges,
                         db_snapshots :=
                           foldl (updateSnapshotStep commentCounts planeIssueMap asanaTaskMap
                                    snapshots taskMappings)
                             snapshots (setOrder (map ch_taskMappingId allChanges))\<rparr>
                    else db)
             in (db',
                 Ok \<lparr>cr_planeChanges = planeChanges, cr_asanaChanges = asanaChanges,
                      cr_summaryPlaneChanges = length planeChanges,
                      cr_summaryAsanaChanges = length asanaChanges,
                      cr_totalLinked = length taskMappings,
                      cr_missing = Some missingCount,
                      cr_logged = Some (length allChanges)\<rparr>,
                 events)
         | _ \<Rightarrow> (db, ServerError, [])))"

subsection \<open>POST: takeSnapshot\<close>




section \<open>Specification-level definitions\<close>

subsection \<open>The scoring rules as the specification words them\<close>

text \<open>The Jaccard similarity of two keyword sets; it is \<open>0\<close> when both are empty.\<close>

definition jaccard :: "string set \<Rightarrow> string set \<Rightarrow> real" where
  "jaccard A B = (if A \<union> B = {} then 0 else real (card (A \<inter> B)) / real (card (A \<union> B)))"

definition descText :: "string option \<Rightarrow> string" where
  "descText d = (case d of None \<Rightarrow> [] | Some s \<Rightarrow> s)"

text \<open>
  The four rules in their order, each as a pair of its firing condition and the
  confidence and method it gives. Rule 4 has its two stages as two entries; "present"
  is the truthiness test of the source.
\<close>

definition spec_rules ::
  "string \<Rightarrow> string option \<Rightarrow> MatchableTask \<Rightarrow> (bool \<times> real \<times> matchMethod) list" where
  "spec_rules sourceName sourceDescription target =
    (let ns = normalizeText sourceName;
         nt = normalizeText (mt_name target);
         ratio = real (min (length ns) (length nt)) / real (max (length ns) (length nt));
         nameSim = jaccard (extractKeywords sourceName) (extractKeywords (mt_name target));
         bothPresent = (truthy sourceDescription \<and> truthy (mt_description target));
         descSim = jaccard (extractKeywords (descText sourceDescription))
                     (extractKeywords (descText (mt_description target)));
         crossSim = max (jaccard (extractKeywords sourceName)
                           (extractKeywords (descText (mt_description target))))
                        (jaccard (extractKeywords (mt_name target))
                           (extractKeywords (descText sourceDescription)))
     in [(ns = nt, 1, Exact),
         ((js_includes ns nt \<or> js_includes nt ns) \<and> ratio > 0.5, 0.85 * ratio + 0.15, Fuzzy),
         (nameSim \<ge> 0.4, min 0.9 (nameSim + 0.3), Fuzzy),
         (bothPresent \<and> descSim \<ge> 0.3, min 0.8 (descSim + 0.2), Description),
         (bothPresent \<and> crossSim \<ge> 0.3, min 0.75 (crossSim + 0.15), Description)])"

definition firstFiring :: "(bool \<times> 'a) list \<Rightarrow> 'a option" where
  "firstFiring rules = map_option snd (find fst rules)"

definition spec_candidate ::
  "string \<Rightarrow> string option \<Rightarrow> MatchableTask \<Rightarrow> (string \<times> string \<times> real \<times> matchMethod) option" where
  "spec_candidate sourceName sourceDescription target =
     map_option (\<lambda>(conf, m). (mt_gid target, mt_name target, conf, m))
       (firstFiring (spec_rules sourceName sourceDescription target))"

definition candidateView :: "MatchCandidate \<Rightarrow> string \<times> string \<times> real \<times> matchMethod" where
  "candidateView c = (mc_gid c, mc_name c, mc_confidence c, mc_matchMethod c)"

subsection \<open>Assumption on the external search library\<close>

text \<open>Fuse.js returns items of the collection it was built from.\<close>

definition fuse_sound :: "FuseSearch \<Rightarrow> bool" where
  "fuse_sound fuse \<longleftrightarrow> (\<forall>q ts t. fst ` set (fuse q ts t) \<subseteq> set ts)"

text \<open>A search that finds nothing.\<close>

definition noFuse :: FuseSearch where
  "noFuse q ts t = []"

subsection \<open>Observations on the fetcher\<close>

fun forProject :: "string \<Rightarrow> request \<Rightarrow> bool" where
  "forProject pid (PlaneComments q p) \<longleftrightarrow> q = pid"
| "forProject pid (AsanaStories a) \<longleftrightarrow> True"

fun requestsOf :: "event list \<Rightarrow> request list" where
  "requestsOf [] = []"
| "requestsOf (Issue rs # evs) = rs @ requestsOf evs"
| "requestsOf (_ # evs) = requestsOf evs"

text \<open>
  A paced event sequence: each batch is started, awaited as a whole, and followed by a
  delay of 1500 ms exactly when another batch follows.
\<close>

fun paced :: "event list \<Rightarrow> bool" where
  "paced [] \<longleftrightarrow> True"
| "paced [Issue rs, AwaitAll] \<longleftrightarrow> True"
| "paced (Issue rs # AwaitAll # Delay ms # rest) \<longleftrightarrow> ms = 1500 \<and> rest \<noteq> [] \<and> paced rest"
| "paced _ \<longleftrightarrow> False"

fun isPlaneRequest :: "request \<Rightarrow> bool" where
  "isPlaneRequest (PlaneComments q p) \<longleftrightarrow> True"
| "isPlaneRequest (AsanaStories a) \<longleftrightarrow> False"

text \<open>A batch holds at most three requests to each remote system.\<close>

fun batchWithinLimit :: "event \<Rightarrow> bool" where
  "batchWithinLimit (Issue rs) \<longleftrightarrow>
     length (filter isPlaneRequest rs) \<le> 3 \<and>
     length (filter (\<lambda>r. \<not> isPlaneRequest r) rs) \<le> 3"
| "batchWithinLimit _ \<longleftrightarrow> True"

definition planeCount :: "Remote \<Rightarrow> string \<Rightarrow> string \<Rightarrow> nat" where
  "planeCount remote projectId p =
     (case plane_listComments remote projectId p of Some n \<Rightarrow> n | None \<Rightarrow> 0)"

definition asanaCount :: "Remote \<Rightarrow> string \<Rightarrow> nat" where
  "asanaCount remote a =
     (case asana_listTaskStories remote a of Some n \<Rightarrow> n | None \<Rightarrow> 0)"

text \<open>
  An identifier is requested when a pair of the list carries it and it passes the
  truthiness and \<open>onlyModified\<close> test.
\<close>

definition planeRequested :: "PairIds list \<Rightarrow> OnlyModified option \<Rightarrow> string \<Rightarrow> bool" where
  "planeRequested tasks onlyModified p \<longleftrightarrow>
     list_ex (\<lambda>t. pr_planeIssueId t = Some p) tasks
     \<and> wanted (Some p) (map_option om_planeIds onlyModified)"

definition asanaRequested :: "PairIds list \<Rightarrow> OnlyModified option \<Rightarrow> string \<Rightarrow> bool" where
  "asanaRequested tasks onlyModified a \<longleftrightarrow>
     list_ex (\<lambda>t. pr_asanaTaskGid t = Some a) tasks
     \<and> wanted (Some a) (map_option om_asanaIds onlyModified)"

subsection \<open>Observations on change detection\<close>

text \<open>
  The change records one task mapping contributes to each side in the second pass.
\<close>

definition pairPlaneChanges ::
  "timestamp \<Rightarrow> CommentCounts \<Rightarrow> (string \<rightharpoonup> PlaneIssue) \<Rightarrow> (string \<rightharpoonup> AsanaTask)
    \<Rightarrow> (string \<rightharpoonup> TaskSnapshot) \<Rightarrow> TaskMapping \<Rightarrow> Change list" where
  "pairPlaneChanges now cc planeIssueMap asanaTaskMap snapshots tm =
     (case resolve planeIssueMap asanaTaskMap tm of
        Live p a planeIssue asanaTask \<Rightarrow>
          (case snapshots (tm_id tm) of
             Some snapshot \<Rightarrow> planeDiff tm planeIssue asanaTask snapshot (cc_plane cc p)
           | None \<Rightarrow> [newChange tm planeIssue asanaTask now])
      | _ \<Rightarrow> [])"

definition pairAsanaChanges ::
  "CommentCounts \<Rightarrow> (string \<rightharpoonup> PlaneIssue) \<Rightarrow> (string \<rightharpoonup> AsanaTask)
    \<Rightarrow> (string \<rightharpoonup> TaskSnapshot) \<Rightarrow> TaskMapping \<Rightarrow> Change list" where
  "pairAsanaChanges cc planeIssueMap asanaTaskMap snapshots tm =
     (case resolve planeIssueMap asanaTaskMap tm of
        Live p a planeIssue asanaTask \<Rightarrow>
          (case snapshots (tm_id tm) of
             Some snapshot \<Rightarrow> asanaDiff tm planeIssue asanaTask snapshot (cc_asana cc a)
           | None \<Rightarrow> [])
      | _ \<Rightarrow> [])"

text \<open>
  The fetch decision in words, for a pair whose two records are in the bulk listings and
  that has a snapshot. On the Plane side: the live timestamp is absent or empty, or the
  snapshot has no timestamp, or both are dates and the live one is strictly newer. On the
  Asana side: the snapshot records a baseline comment count.
\<close>

definition newerOrAbsent :: "timeString \<Rightarrow> jsDate option \<Rightarrow> bool" where
  "newerOrAbsent live stored =
     (case live of
        NoTime \<Rightarrow> True
      | Unparsable \<Rightarrow> stored = None
      | TimeAt u \<Rightarrow>
          (case stored of
             None \<Rightarrow> True
           | Some InvalidDate \<Rightarrow> False
           | Some (DateAt m) \<Rightarrow> m < u))"

definition planeFetchSpec ::
  "(string \<rightharpoonup> PlaneIssue) \<Rightarrow> (string \<rightharpoonup> AsanaTask) \<Rightarrow> (string \<rightharpoonup> TaskSnapshot)
    \<Rightarrow> TaskMapping \<Rightarrow> string option" where
  "planeFetchSpec planeIssueMap asanaTaskMap snapshots tm =
     (case resolve planeIssueMap asanaTaskMap tm of
        Live p a planeIssue asanaTask \<Rightarrow>
          (case snapshots (tm_id tm) of
             Some snapshot \<Rightarrow>
               if newerOrAbsent (pi_updated_at planeIssue) (sn_planeModifiedAt snapshot)
               then Some p else None
           | None \<Rightarrow> None)
      | _ \<Rightarrow> None)"

definition asanaFetchSpec ::
  "(string \<rightharpoonup> PlaneIssue) \<Rightarrow> (string \<rightharpoonup> AsanaTask) \<Rightarrow> (string \<rightharpoonup> TaskSnapshot)
    \<Rightarrow> TaskMapping \<Rightarrow> string option" where
  "asanaFetchSpec planeIssueMap asanaTaskMap snapshots tm =
     (case resolve planeIssueMap asanaTaskMap tm of
        Live p a planeIssue asanaTask \<Rightarrow>
          (case snapshots (tm_id tm) of
             Some snapshot \<Rightarrow>
               if sn_asanaCommentsCount snapshot \<noteq> None then Some a else None
           | None \<Rightarrow> None)
      | _ \<Rightarrow> None)"



text \<open>
  The comment counts and fetch events of one detection request: the first pass followed
  by the conditional call of the fetcher.
\<close>

definition detectCounts ::
  "Remote \<Rightarrow> string \<Rightarrow> (string \<rightharpoonup> PlaneIssue) \<Rightarrow> (string \<rightharpoonup> AsanaTask)
    \<Rightarrow> (string \<rightharpoonup> TaskSnapshot) \<Rightarrow> TaskMapping list \<Rightarrow> CommentCounts \<times> event list" where
  "detectCounts remote projectId planeIssueMap asanaTaskMap snapshots taskMappings =
     (let ids = firstPass planeIssueMap asanaTaskMap snapshots taskMappings in
      if fst ids \<noteq> {} \<or> snd ids \<noteq> {}
      then fetchCommentCountsBatched remote projectId (map pairIdsOf taskMappings)
             (Some \<lparr>om_planeIds = fst ids, om_asanaIds = snd ids\<rparr>)
      else (\<lparr>cc_plane = Map.empty, cc_asana = Map.empty\<rparr>, []))"

text \<open>The snapshot that the update loop writes for a task mapping identifier, if any.\<close>

definition writtenSnapshot ::
  "CommentCounts \<Rightarrow> (string \<rightharpoonup> PlaneIssue) \<Rightarrow> (string \<rightharpoonup> AsanaTask)
    \<Rightarrow> (string \<rightharpoonup> TaskSnapshot) \<Rightarrow> TaskMapping list \<Rightarrow> string \<Rightarrow> TaskSnapshot option" where
  "writtenSnapshot cc planeIssueMap asanaTaskMap loaded taskMappings taskId =
     (case find (\<lambda>t. tm_id t = taskId) taskMappings of
        None \<Rightarrow> None
      | Some tm \<Rightarrow>
          (case resolve planeIssueMap asanaTaskMap tm of
             Live p a planeIssue asanaTask \<Rightarrow>
               Some (snapshotOf planeIssue asanaTask
                 (countOr (cc_plane cc p)
                    (case loaded (tm_id tm) of
                       Some s \<Rightarrow> sn_planeCommentsCount s | None \<Rightarrow> None))
                 (countOr (cc_asana cc a)
                    (case loaded (tm_id tm) of
                       Some s \<Rightarrow> sn_asanaCommentsCount s | None \<Rightarrow> None)))
           | _ \<Rightarrow> None))"

text \<open>The change records of a response, both sides together; none for an error.\<close>

definition reportedChanges :: "ChangesResponse response \<Rightarrow> Change list" where
  "reportedChanges resp =
     (case resp of Ok r \<Rightarrow> cr_planeChanges r @ cr_asanaChanges r | _ \<Rightarrow> [])"




text \<open>The view of a candidate list, and the ranking of \<open>findMatches\<close> on views.\<close>

definition rankViews ::
  "real \<Rightarrow> (string \<times> string \<times> real \<times> matchMethod) list
    \<Rightarrow> (string \<times> string \<times> real \<times> matchMethod) list" where
  "rankViews threshold vs =
     take 5 (sort_key (\<lambda>v. - fst (snd (snd v)))
               (filter (\<lambda>v. fst (snd (snd v)) \<ge> threshold) vs))"

section \<open>Example inputs\<close>

text \<open>The example of the specification: three target tasks without descriptions.\<close>

definition c3_targets :: "string \<Rightarrow> string \<Rightarrow> string \<Rightarrow> MatchableTask list" where
  "c3_targets g1 g2 g3 =
     [\<lparr>mt_gid = g1, mt_name = ''Fix login bug'', mt_description = None\<rparr>,
      \<lparr>mt_gid = g2, mt_name = ''Update login page'', mt_description = None\<rparr>,
      \<lparr>mt_gid = g3, mt_name = ''Bug: login crash'', mt_description = None\<rparr>]"

definition c3_result :: "string \<Rightarrow> string \<Rightarrow> string \<Rightarrow> MatchCandidate list" where
  "c3_result g1 g2 g3 =
     [\<lparr>mc_gid = g1, mc_name = ''Fix login bug'', mc_confidence = 1,
       mc_matchMethod = Exact, mc_matchReason = Some ExactNameMatch\<rparr>,
      \<lparr>mc_gid = g2, mc_name = ''Update login page'', mc_confidence = 4/5,
       mc_matchMethod = Fuzzy, mc_matchReason = Some (KeywordMatchInName 50)\<rparr>,
      \<lparr>mc_gid = g3, mc_name = ''Bug: login crash'', mc_confidence = 4/5,
       mc_matchMethod = Fuzzy, mc_matchReason = Some (KeywordMatchInName 50)\<rparr>]"

text \<open>Two source records that carry the same identifier, and a list without that.\<close>

definition c2_planeTasks :: "PlaneTaskIn list" where
  "c2_planeTasks =
     [\<lparr>pt_id = ''p'', pt_name = ''alpha'', pt_description = None\<rparr>,
      \<lparr>pt_id = ''p'', pt_name = ''beta'', pt_description = None\<rparr>]"

definition c2_asanaTasks :: "AsanaTaskIn list" where
  "c2_asanaTasks =
     [\<lparr>at_gid = ''a1'', at_name = ''alpha'', at_notes = None\<rparr>,
      \<lparr>at_gid = ''a2'', at_name = ''beta'', at_notes = None\<rparr>]"

definition c2_planeTasks_ok :: "PlaneTaskIn list" where
  "c2_planeTasks_ok =
     [\<lparr>pt_id = ''p1'', pt_name = ''alpha'', pt_description = None\<rparr>,
      \<lparr>pt_id = ''p2'', pt_name = ''beta'', pt_description = None\<rparr>,
      \<lparr>pt_id = ''p3'', pt_name = ''beta'', pt_description = None\<rparr>]"

text \<open>
  A project mapping with one linked pair that has no snapshot, and remote systems that
  list both records of the pair.
\<close>

definition ex_issues :: "PlaneIssue list" where
  "ex_issues =
     [\<lparr>pi_id = ''p1'', pi_name = ''Alpha'', pi_description_stripped = None,
       pi_state_detail_name = Some ''Done'', pi_updated_at = TimeAt 100\<rparr>]"

definition ex_tasks :: "AsanaTask list" where
  "ex_tasks =
     [\<lparr>as_gid = ''a1'', as_name = ''Alpha'', as_notes = None, as_completed = False,
       as_modified_at = TimeAt 90\<rparr>]"

definition ex_remote :: Remote where
  "ex_remote =
     \<lparr>plane_listIssues = (\<lambda>_. Some ex_issues),
      asana_listTasks = (\<lambda>_ _. Some ex_tasks),
      plane_listComments = (\<lambda>_ _. Some 2),
      asana_listTaskStories = (\<lambda>_. Some 5)\<rparr>"

definition ex_mapping :: ProjectMapping where
  "ex_mapping =
     \<lparr>pm_id = ''m'', pm_planeProjectId = ''P'', pm_asanaProjectGid = ''A'',
      pm_asanaSectionName = None\<rparr>"

definition ex_db :: Db where
  "ex_db =
     \<lparr>db_projectMappings = [ex_mapping],
      db_taskMappings =
        [\<lparr>tm_id = ''t1'', tm_projectMappingId = ''m'', tm_planeIssueId = Some ''p1'',
          tm_asanaTaskGid = Some ''a1''\<rparr>],
      db_snapshots = Map.empty,
      db_changeLog = []\<rparr>"

text \<open>The same pair with a snapshot taken when the Plane state was still \<open>Open\<close>.\<close>

definition ex_snapshot :: TaskSnapshot where
  "ex_snapshot =
     \<lparr>sn_planeName = Some ''Alpha'', sn_planeDescription = Some [],
      sn_planeState = Some ''Open'', sn_planeModifiedAt = Some (DateAt 50),
      sn_planeCommentsCount = Some 2, sn_asanaName = Some ''Alpha'',
      sn_asanaDescription = Some [], sn_asanaCompleted = Some False,
      sn_asanaModifiedAt = Some (DateAt 90), sn_asanaCommentsCount = Some 3\<rparr>"

definition ex_db_snap :: Db where
  "ex_db_snap = ex_db\<lparr>db_snapshots := [''t1'' \<mapsto> ex_snapshot]\<rparr>"

text \<open>Remote systems in which the Plane issue of the pair is no longer listed.\<close>

definition ex_remote_missing :: Remote where
  "ex_remote_missing = ex_remote\<lparr>plane_listIssues := (\<lambda>_. Some [])\<rparr>"

text \<open>Three fully linked pairs, and a fourth one.\<close>

definition ex_pairs3 :: "PairIds list" where
  "ex_pairs3 =
     [\<lparr>pr_planeIssueId = Some ''p1'', pr_asanaTaskGid = Some ''a1''\<rparr>,
      \<lparr>pr_planeIssueId = Some ''p2'', pr_asanaTaskGid = Some ''a2''\<rparr>,
      \<lparr>pr_planeIssueId = Some ''p3'', pr_asanaTaskGid = Some ''a3''\<rparr>]"

definition ex_pairs4 :: "PairIds list" where
  "ex_pairs4 = ex_pairs3 @ [\<lparr>pr_planeIssueId = Some ''p4'', pr_asanaTaskGid = Some ''a4''\<rparr>]"

text \<open>Remote systems in which the comment request for \<open>p2\<close> is rejected.\<close>

definition ex_remote_failing :: Remote where
  "ex_remote_failing =
     ex_remote\<lparr>plane_listComments := (\<lambda>_ p. if p = ''p2'' then None else Some 4)\<rparr>"

text \<open>
  The same snapshot without an Asana baseline count, which the \<open>NOT NULL\<close> column of
  the schema excludes.
\<close>

definition ex_db_null :: Db where
  "ex_db_null =
     ex_db\<lparr>db_snapshots := [''t1'' \<mapsto> ex_snapshot\<lparr>sn_asanaCommentsCount := None\<rparr>]\<rparr>"


text \<open>
  Remote systems in which the Plane issue of the pair carries a timestamp that is not a
  date.
\<close>

definition ex_remote_unparsable :: Remote where
  "ex_remote_unparsable =
     ex_remote\<lparr>plane_listIssues := (\<lambda>_. Some
       [\<lparr>pi_id = ''p1'', pi_name = ''Alpha'', pi_description_stripped = None,
         pi_state_detail_name = Some ''Done'', pi_updated_at = Unparsable\<rparr>])\<rparr>"

section \<open>Theorems on the matching engine\<close>

subsection \<open>The example of the specification\<close>

lemma c3_cands:
  "candidatesOf ''Fix login bug'' None (c3_targets g1 g2 g3) = c3_result g1 g2 g3"
  unfolding c3_targets_def c3_result_def by code_simp

text \<open>
  Claim C3, as the code has it. For the source name "Fix login bug" and the targets
  "Fix login bug", "Update login page" and "Bug: login crash" without descriptions, with
  a threshold between 0.5 and 0.7, \<open>findMatches\<close> returns three candidates: the first
  target with confidence 1 and method exact, and both other targets with confidence 0.8
  and method fuzzy through the name keyword rule. "Update login page" has the keywords
  login and page ("update" is a stop word), "Fix login bug" has the keyword login, so
  their Jaccard similarity is 1/2 and the candidate is not omitted.
\<close>

theorem C3_example:
  assumes "0.5 \<le> th" and "th \<le> 0.7"
  shows "findMatches ''Fix login bug'' (c3_targets g1 g2 g3) th None = c3_result g1 g2 g3"
  using assms unfolding findMatches_def c3_cands sortByConfidence_def
  by (simp add: c3_result_def)

theorem C3_example_witness:
  "(0.5::real) \<le> 0.6 \<and> (0.6::real) \<le> 0.7 \<and>
   findMatches ''Fix login bug'' (c3_targets ''1'' ''2'' ''3'') 0.6 None =
     c3_result ''1'' ''2'' ''3''"
  using C3_example [of "0.6" "''1''" "''2''" "''3''"] by simp

text \<open>
  Claim C3 as stated fails: at the threshold 0.6 the returned list contains a candidate
  for "Update login page".
\<close>

theorem C3_counterexample:
  "''Update login page'' \<in> set (map mc_name
      (findMatches ''Fix login bug'' (c3_targets ''1'' ''2'' ''3'') 0.6 None))"
  unfolding findMatches_def c3_cands sortByConfidence_def
  by (simp add: c3_result_def)

subsection \<open>The rules in order\<close>

lemma finite_extractKeywords: "finite (extractKeywords t)"
  by (simp add: extractKeywords_def)

lemma keywordOverlapScore_jaccard:
  "keywordOverlapScore a b = jaccard (extractKeywords a) (extractKeywords b)"
  using finite_extractKeywords [of a] finite_extractKeywords [of b]
  by (auto simp: keywordOverlapScore_def jaccard_def Let_def)

lemma scoreTarget_spec:
  "map_option candidateView (scoreTarget s d t) = spec_candidate s d t"
  by (cases d; cases "mt_description t")
     (simp_all add: scoreTarget_def spec_candidate_def spec_rules_def firstFiring_def
        candidateView_def Let_def keywordOverlapScore_jaccard descText_def)

lemma map_map_filter: "map f (List.map_filter g xs) = List.map_filter (\<lambda>x. map_option f (g x)) xs"
  by (induction xs) (auto simp: List.map_filter_simps split: option.splits)

lemma candidates_spec:
  "map candidateView (candidatesOf s d ts) = List.map_filter (spec_candidate s d) ts"
  by (simp add: candidatesOf_def map_map_filter scoreTarget_spec)

lemma map_insort_key:
  "map f (insort_key (\<lambda>x. k (f x)) x xs) = insort_key k (f x) (map f xs)"
  by (induction xs) simp_all

lemma map_sort_key: "map f (sort_key (\<lambda>x. k (f x)) xs) = sort_key k (map f xs)"
  by (induction xs) (simp_all add: map_insort_key)

lemma confidence_view: "mc_confidence c = fst (snd (snd (candidateView c)))"
  by (simp add: candidateView_def)

lemma findMatches_views:
  "map candidateView (findMatches s ts th d) =
     rankViews th (map candidateView (candidatesOf s d ts))"
proof -
  have f: "map candidateView (filter (\<lambda>c. th \<le> mc_confidence c) cs) =
           filter (\<lambda>v. th \<le> fst (snd (snd v))) (map candidateView cs)" for cs
    by (induction cs) (simp_all add: confidence_view)
  have k: "map candidateView (sort_key (\<lambda>c. - mc_confidence c) cs) =
           sort_key (\<lambda>v. - fst (snd (snd v))) (map candidateView cs)" for cs
    using map_sort_key [of candidateView "\<lambda>v. - fst (snd (snd v))" cs]
    by (simp add: confidence_view)
  show ?thesis
    unfolding findMatches_def rankViews_def sortByConfidence_def
    by (simp only: take_map [symmetric] k f)
qed

text \<open>
  Claim C5. Seen as identifier, name, confidence and method, the list that
  \<open>findMatches\<close> returns is the ranking (the threshold filter, the stable sort by
  descending confidence, the first five) of the candidates that the rules give target by
  target, in the order of the targets: for each target the first rule that fires gives its
  candidate (exact equality of the normalized names, containment with ratio above 0.5,
  name keyword similarity of at least 0.4, and, when both descriptions are present,
  description similarity of at least 0.3 or else the cross-check with the floor 0.3), and
  a target for which no rule fires contributes nothing.
\<close>

theorem C5_rules:
  "map candidateView (findMatches s ts th d) =
     rankViews th (List.map_filter (spec_candidate s d) ts)"
  by (simp add: findMatches_views candidates_spec)

theorem C5_rules_witness:
  "map candidateView (findMatches ''Fix login bug'' (c3_targets ''1'' ''2'' ''3'') 0.6 None) =
     [(''1'', ''Fix login bug'', 1, Exact),
      (''2'', ''Update login page'', 4 / 5, Fuzzy),
      (''3'', ''Bug: login crash'', 4 / 5, Fuzzy)]
   \<and> rankViews 0.6
         (List.map_filter (spec_candidate ''Fix login bug'' None) (c3_targets ''1'' ''2'' ''3'')) =
     [(''1'', ''Fix login bug'', 1, Exact),
      (''2'', ''Update login page'', 4 / 5, Fuzzy),
      (''3'', ''Bug: login crash'', 4 / 5, Fuzzy)]"
proof -
  have "map candidateView (findMatches ''Fix login bug'' (c3_targets ''1'' ''2'' ''3'') 0.6 None) =
     [(''1'', ''Fix login bug'', 1, Exact),
      (''2'', ''Update login page'', 4 / 5, Fuzzy),
      (''3'', ''Bug: login crash'', 4 / 5, Fuzzy)]"
    unfolding findMatches_def c3_cands sortByConfidence_def
    by (simp add: c3_result_def candidateView_def)
  with C5_rules [of "''Fix login bug''" "c3_targets ''1'' ''2'' ''3''" "0.6" None]
  show ?thesis by simp
qed

subsection \<open>Bounds on the returned list\<close>

lemma scoreTarget_gid:
  "scoreTarget s d t = Some c \<Longrightarrow> mc_gid c = mt_gid t"
  by (auto simp: scoreTarget_def Let_def split: if_splits option.splits)

lemma containment_le_1: "real (min (a::nat) b) / real (max a b) \<le> 1"
  by (cases "max a b = 0") (auto simp: divide_le_eq_1)

lemma scoreTarget_confidence_le_1:
  assumes "scoreTarget s d t = Some c"
  shows "mc_confidence c \<le> 1"
proof -
  have r: "0.85 * (real (min (length (normalizeText s)) (length (normalizeText (mt_name t))))
              / real (max (length (normalizeText s)) (length (normalizeText (mt_name t))))) + 0.15 \<le> (1::real)"
    using containment_le_1 [of "length (normalizeText s)" "length (normalizeText (mt_name t))"]
    by simp
  show ?thesis
    using assms r
    by (auto simp: scoreTarget_def Let_def split: if_splits option.splits)
qed

lemma candidatesOf_mem:
  "c \<in> set (candidatesOf s d ts) \<Longrightarrow> \<exists>t \<in> set ts. scoreTarget s d t = Some c"
  by (induction ts) (auto simp: candidatesOf_def List.map_filter_simps split: option.splits)

lemma set_findMatches:
  "set (findMatches s ts th d) \<subseteq> {c \<in> set (candidatesOf s d ts). th \<le> mc_confidence c}"
  unfolding findMatches_def sortByConfidence_def
  using set_take_subset [of 5] by fastforce

lemma sorted_desc_sortByConfidence:
  "sorted_wrt (\<lambda>a b. mc_confidence b \<le> mc_confidence a) (sortByConfidence cs)"
proof -
  have "sorted (map (\<lambda>c. - mc_confidence c) (sortByConfidence cs))"
    unfolding sortByConfidence_def by (rule sorted_sort_key)
  then show ?thesis
    by (simp add: sorted_map)
qed

text \<open>
  Claim C6. The list \<open>findMatches\<close> returns has at most five candidates, is sorted by
  descending confidence, and every returned confidence is at least the threshold and at
  most 1.
\<close>

theorem C6_bounds:
  "length (findMatches s ts th d) \<le> 5 \<and>
   sorted_wrt (\<lambda>a b. mc_confidence b \<le> mc_confidence a) (findMatches s ts th d) \<and>
   (\<forall>c \<in> set (findMatches s ts th d). th \<le> mc_confidence c \<and> mc_confidence c \<le> 1)"
proof (intro conjI ballI)
  show "length (findMatches s ts th d) \<le> 5"
    by (simp add: findMatches_def)
  show "sorted_wrt (\<lambda>a b. mc_confidence b \<le> mc_confidence a) (findMatches s ts th d)"
    unfolding findMatches_def by (rule sorted_wrt_take) (rule sorted_desc_sortByConfidence)
next
  fix c assume c: "c \<in> set (findMatches s ts th d)"
  with set_findMatches [of s ts th d]
  have m: "c \<in> set (candidatesOf s d ts)" and t: "th \<le> mc_confidence c" by auto
  from t show "th \<le> mc_confidence c" .
  from candidatesOf_mem [OF m] scoreTarget_confidence_le_1
  show "mc_confidence c \<le> 1" by blast
qed

theorem C6_bounds_witness:
  "length (findMatches ''Fix login bug'' (c3_targets ''1'' ''2'' ''3'') 0.6 None) = 3 \<and>
   length (findMatches ''Fix login bug'' (c3_targets ''1'' ''2'' ''3'') 0.6 None) \<le> 5 \<and>
   sorted_wrt (\<lambda>a b. mc_confidence b \<le> mc_confidence a)
     (findMatches ''Fix login bug'' (c3_targets ''1'' ''2'' ''3'') 0.6 None) \<and>
   list_all (\<lambda>c. 0.6 \<le> mc_confidence c \<and> mc_confidence c \<le> 1)
     (findMatches ''Fix login bug'' (c3_targets ''1'' ''2'' ''3'') 0.6 None)"
proof -
  have "findMatches ''Fix login bug'' (c3_targets ''1'' ''2'' ''3'') 0.6 None =
          c3_result ''1'' ''2'' ''3''"
    unfolding findMatches_def c3_cands sortByConfidence_def by (simp add: c3_result_def)
  then have "length (findMatches ''Fix login bug'' (c3_targets ''1'' ''2'' ''3'') 0.6 None) = 3"
    by (simp add: c3_result_def)
  with C6_bounds [of "''Fix login bug''" "c3_targets ''1'' ''2'' ''3''" "0.6" None]
  show ?thesis unfolding list_all_iff by blast
qed

subsection \<open>One-to-one suggestions\<close>

lemma findMatches_gid:
  assumes "c \<in> set (findMatches s ts th d)"
  shows "mc_gid c \<in> mt_gid ` set ts"
proof -
  from assms set_findMatches [of s ts th d] have "c \<in> set (candidatesOf s d ts)" by auto
  from candidatesOf_mem [OF this] obtain t where "t \<in> set ts" "scoreTarget s d t = Some c" by blast
  then show ?thesis using scoreTarget_gid by force
qed

lemma fuzzySearch_gid:
  assumes "fuse_sound fuse" and "c \<in> set (fuzzySearch fuse q ts th)"
  shows "mc_gid c \<in> mt_gid ` set ts"
proof -
  from assms(2) obtain r where r: "r \<in> set (take 5 (fuse q ts (1 - th)))" and c: "mc_gid c = mt_gid (fst r)"
    by (auto simp: fuzzySearch_def)
  from r have "r \<in> set (fuse q ts (1 - th))" by (rule in_set_takeD)
  with assms(1) have "fst r \<in> set ts" unfolding fuse_sound_def by blast
  with c show ?thesis by simp
qed

lemma getBestMatch_gid:
  assumes "fuse_sound fuse" and "getBestMatch fuse s ts mc d = Some b"
  shows "mc_gid b \<in> mt_gid ` set ts"
proof -
  from assms(2) have "b \<in> set (findMatches s ts mc d) \<or> b \<in> set (fuzzySearch fuse s ts mc)"
    by (auto simp: getBestMatch_def Let_def split: list.splits if_splits)
  then show ?thesis using findMatches_gid fuzzySearch_gid [OF assms(1)] by blast
qed

lemma autoMatchLoop_targets:
  assumes "fuse_sound fuse"
    and "autoMatchLoop fuse M L mc ps (sugs, used) = (sugs', used')"
    and "distinct (map sm_asanaTaskGid sugs)"
    and "set (map sm_asanaTaskGid sugs) \<subseteq> used"
  shows "distinct (map sm_asanaTaskGid sugs') \<and> set (map sm_asanaTaskGid sugs') \<subseteq> used'"
  using assms(2-)
proof (induction ps arbitrary: sugs used)
  case Nil
  then show ?case by simp
next
  case (Cons p ps)
  let ?avail = "filter (\<lambda>t. mt_gid t \<notin> used) M"
  show ?case
  proof (cases "pt_id p \<in> L \<or> ?avail = [] \<or> getBestMatch fuse (pt_name p) ?avail mc (pt_description p) = None")
    case True
    with Cons.prems(1) have "autoMatchLoop fuse M L mc ps (sugs, used) = (sugs', used')"
      by (auto simp: Let_def split: if_splits)
    from Cons.IH [OF this Cons.prems(2,3)] show ?thesis .
  next
    case False
    then obtain b where b: "getBestMatch fuse (pt_name p) ?avail mc (pt_description p) = Some b"
      by auto
    from getBestMatch_gid [OF assms(1) b] have fresh: "mc_gid b \<notin> used" by auto
    from False b Cons.prems(1)
    have step: "autoMatchLoop fuse M L mc ps (sugs @ [mkSuggestion p b], insert (mc_gid b) used) = (sugs', used')"
      by (simp add: Let_def)
    have g: "sm_asanaTaskGid (mkSuggestion p b) = mc_gid b" by (simp add: mkSuggestion_def)
    have d: "distinct (map sm_asanaTaskGid (sugs @ [mkSuggestion p b]))"
      using Cons.prems(2,3) fresh g by auto
    have s: "set (map sm_asanaTaskGid (sugs @ [mkSuggestion p b])) \<subseteq> insert (mc_gid b) used"
      using Cons.prems(3) g by auto
    from Cons.IH [OF step d s] show ?thesis .
  qed
qed

lemma autoMatchLoop_sources:
  assumes "autoMatchLoop fuse M L mc ps (sugs, used) = (sugs', used')"
    and "distinct (map pt_id ps)"
    and "distinct (map sm_planeTaskId sugs)"
    and "set (map sm_planeTaskId sugs) \<inter> set (map pt_id ps) = {}"
  shows "distinct (map sm_planeTaskId sugs')"
  using assms
proof (induction ps arbitrary: sugs used)
  case Nil
  then show ?case by simp
next
  case (Cons p ps)
  let ?avail = "filter (\<lambda>t. mt_gid t \<notin> used) M"
  show ?case
  proof (cases "pt_id p \<in> L \<or> ?avail = [] \<or> getBestMatch fuse (pt_name p) ?avail mc (pt_description p) = None")
    case True
    with Cons.prems(1) have l: "autoMatchLoop fuse M L mc ps (sugs, used) = (sugs', used')"
      by (auto simp: Let_def split: if_splits)
    have d: "distinct (map pt_id ps)" using Cons.prems(2) by simp
    have i: "set (map sm_planeTaskId sugs) \<inter> set (map pt_id ps) = {}"
      using Cons.prems(4) by auto
    from Cons.IH [OF l d Cons.prems(3) i] show ?thesis .
  next
    case False
    then obtain b where b: "getBestMatch fuse (pt_name p) ?avail mc (pt_description p) = Some b"
      by auto
    from False b Cons.prems(1)
    have step: "autoMatchLoop fuse M L mc ps (sugs @ [mkSuggestion p b], insert (mc_gid b) used) = (sugs', used')"
      by (simp add: Let_def)
    have g: "sm_planeTaskId (mkSuggestion p b) = pt_id p" by (simp add: mkSuggestion_def)
    have d: "distinct (map pt_id ps)" using Cons.prems(2) by simp
    have d2: "distinct (map sm_planeTaskId (sugs @ [mkSuggestion p b]))"
      using Cons.prems(3,4) g by auto
    have i: "set (map sm_planeTaskId (sugs @ [mkSuggestion p b])) \<inter> set (map pt_id ps) = {}"
      using Cons.prems(2,4) g by auto
    from Cons.IH [OF step d d2 i] show ?thesis .
  qed
qed

lemma distinct_map_insort_key:
  "distinct (map f (insort_key k x xs)) = distinct (map f (x # xs))"
  by (induction xs) (auto simp: set_insort_key)

lemma distinct_map_sort_key: "distinct (map f (sort_key k xs)) = distinct (map f xs)"
  by (induction xs) (simp_all add: distinct_map_insort_key)

text \<open>
  Claim C2, as the code has it. Whatever the inputs, no two suggestions returned by
  \<open>autoMatchAllTasks\<close> have the same Asana identifier; and no two have the same Plane
  identifier provided the Plane records of the input have pairwise distinct identifiers.
  The external search is only assumed to return items of the list it was given.
\<close>

theorem C2_distinct:
  assumes "fuse_sound fuse"
  shows "distinct (map sm_asanaTaskGid (autoMatchAllTasks fuse planeTasks asanaTasks lp la mc)) \<and>
         (distinct (map pt_id planeTasks) \<longrightarrow>
            distinct (map sm_planeTaskId (autoMatchAllTasks fuse planeTasks asanaTasks lp la mc)))"
proof -
  let ?M = "map toMatchable (filter (\<lambda>t. at_gid t \<notin> la) asanaTasks)"
  obtain sugs used where r: "autoMatchLoop fuse ?M lp mc planeTasks ([], la) = (sugs, used)"
    by (cases "autoMatchLoop fuse ?M lp mc planeTasks ([], la)")
  have res: "autoMatchAllTasks fuse planeTasks asanaTasks lp la mc = sort_key (\<lambda>s. - sm_confidence s) sugs"
    by (simp add: autoMatchAllTasks_def r)
  from autoMatchLoop_targets [OF assms r] have t: "distinct (map sm_asanaTaskGid sugs)" by simp
  have s: "distinct (map pt_id planeTasks) \<Longrightarrow> distinct (map sm_planeTaskId sugs)"
    using autoMatchLoop_sources [OF r] by simp
  show ?thesis using t s by (simp add: res distinct_map_sort_key)
qed

lemma fuse_sound_noFuse: "fuse_sound noFuse"
  by (simp add: fuse_sound_def noFuse_def)

theorem C2_distinct_witness:
  "fuse_sound noFuse \<and> distinct (map pt_id c2_planeTasks_ok) \<and>
   map sm_asanaTaskGid (autoMatchAllTasks noFuse c2_planeTasks_ok c2_asanaTasks {} {} 0.6) = [''a1'', ''a2''] \<and>
   distinct (map sm_asanaTaskGid (autoMatchAllTasks noFuse c2_planeTasks_ok c2_asanaTasks {} {} 0.6)) \<and>
   distinct (map sm_planeTaskId (autoMatchAllTasks noFuse c2_planeTasks_ok c2_asanaTasks {} {} 0.6))"
proof -
  have d: "distinct (map pt_id c2_planeTasks_ok)" by (simp add: c2_planeTasks_ok_def)
  have e: "map sm_asanaTaskGid (autoMatchAllTasks noFuse c2_planeTasks_ok c2_asanaTasks {} {} 0.6) = [''a1'', ''a2'']"
    by code_simp
  show ?thesis
    using C2_distinct [OF fuse_sound_noFuse, of c2_planeTasks_ok c2_asanaTasks "{}" "{}" "0.6"] d e
    by (simp add: fuse_sound_noFuse)
qed

text \<open>
  Claim C2 as stated fails for a source list that repeats an identifier: both records
  are matched, and the two suggestions carry the same Plane identifier.
\<close>

theorem C2_counterexample:
  "map sm_planeTaskId (autoMatchAllTasks noFuse c2_planeTasks c2_asanaTasks {} {} 0.6) = [''p'', ''p'']"
  by code_simp

section \<open>Theorems on the comment fetcher\<close>

lemma requestsOf_append: "requestsOf (xs @ ys) = requestsOf xs @ requestsOf ys"
  by (induction xs rule: requestsOf.induct) auto

lemma batchRequests_append:
  "batchRequests pid om (xs @ ys) = batchRequests pid om xs @ batchRequests pid om ys"
  by (simp add: batchRequests_def)

lemma batchRequests_take_drop:
  "batchRequests pid om (take n xs) @ batchRequests pid om (drop n xs) = batchRequests pid om xs"
  by (metis append_take_drop_id batchRequests_append)

lemma fetchBatches_counts:
  "fst (fetchBatches remote pid om ts i (cc, evs)) =
     foldl (settle remote) cc (batchRequests pid om (drop i ts))"
proof (induction remote pid om ts i "(cc, evs)" arbitrary: cc evs rule: fetchBatches.induct)
  case (1 remote pid om ts i cc evs)
  show ?case
  proof (cases "i < length ts")
    case True
    have d: "drop (i + BATCH_SIZE) ts = drop BATCH_SIZE (drop i ts)"
      by (simp add: add.commute)
    have "fst (fetchBatches remote pid om ts i (cc, evs)) =
          foldl (settle remote) (foldl (settle remote) cc
              (batchRequests pid om (take BATCH_SIZE (drop i ts))))
            (batchRequests pid om (drop (i + BATCH_SIZE) ts))"
      using True "1.hyps" [OF True refl refl refl refl]
      by (subst fetchBatches.simps) (simp add: Let_def)
    also have "\<dots> = foldl (settle remote) cc
         (batchRequests pid om (take BATCH_SIZE (drop i ts)) @
          batchRequests pid om (drop BATCH_SIZE (drop i ts)))"
      by (simp add: d)
    also have "\<dots> = foldl (settle remote) cc (batchRequests pid om (drop i ts))"
      by (simp only: batchRequests_take_drop)
    finally show ?thesis .
  next
    case False
    then show ?thesis by (subst fetchBatches.simps) (simp add: batchRequests_def)
  qed
qed

lemma fetchBatches_requests:
  "requestsOf (snd (fetchBatches remote pid om ts i (cc, evs))) =
     requestsOf evs @ batchRequests pid om (drop i ts)"
proof (induction remote pid om ts i "(cc, evs)" arbitrary: cc evs rule: fetchBatches.induct)
  case (1 remote pid om ts i cc evs)
  show ?case
  proof (cases "i < length ts")
    case True
    have d: "drop (i + BATCH_SIZE) ts = drop BATCH_SIZE (drop i ts)"
      by (simp add: add.commute)
    have "requestsOf (snd (fetchBatches remote pid om ts i (cc, evs))) =
          requestsOf (evs @ [Issue (batchRequests pid om (take BATCH_SIZE (drop i ts))), AwaitAll]
                     @ (if i + BATCH_SIZE < length ts then [Delay BATCH_DELAY] else []))
          @ batchRequests pid om (drop (i + BATCH_SIZE) ts)"
      using True "1.hyps" [OF True refl refl refl refl]
      by (subst fetchBatches.simps) (simp add: Let_def)
    also have "\<dots> = requestsOf evs @ (batchRequests pid om (take BATCH_SIZE (drop i ts)) @
          batchRequests pid om (drop BATCH_SIZE (drop i ts)))"
      by (simp add: d requestsOf_append)
    also have "\<dots> = requestsOf evs @ batchRequests pid om (drop i ts)"
      by (simp only: batchRequests_take_drop)
    finally show ?thesis .
  next
    case False
    then show ?thesis by (subst fetchBatches.simps) (simp add: batchRequests_def)
  qed
qed

lemma settle_plane_other:
  "cc_plane (settle remote cc (AsanaStories a)) = cc_plane cc"
  "cc_asana (settle remote cc (PlaneComments q p)) = cc_asana cc"
  by simp_all

lemma foldl_settle_plane:
  assumes "list_all (forProject pid) reqs"
  shows "cc_plane (foldl (settle remote) cc reqs) p =
     (if PlaneComments pid p \<in> set reqs then Some (planeCount remote pid p) else cc_plane cc p)"
  using assms
proof (induction reqs arbitrary: cc)
  case Nil
  then show ?case by simp
next
  case (Cons r reqs)
  from Cons.prems have rest: "list_all (forProject pid) reqs" by simp
  note IH = Cons.IH [OF rest, of "settle remote cc r"]
  show ?case
  proof (cases r)
    case (PlaneComments q p')
    with Cons.prems have "q = pid" by simp
    with PlaneComments IH show ?thesis by (simp add: planeCount_def)
  next
    case (AsanaStories a)
    with IH show ?thesis by simp
  qed
qed

lemma foldl_settle_asana:
  "cc_asana (foldl (settle remote) cc reqs) a =
     (if AsanaStories a \<in> set reqs then Some (asanaCount remote a) else cc_asana cc a)"
proof (induction reqs arbitrary: cc)
  case Nil
  then show ?case by simp
next
  case (Cons r reqs)
  note IH = Cons.IH [of "settle remote cc r"]
  show ?case
  proof (cases r)
    case (PlaneComments q p')
    with IH show ?thesis by simp
  next
    case (AsanaStories a')
    with IH show ?thesis by (simp add: asanaCount_def)
  qed
qed

lemma pairRequests_forProject: "list_all (forProject pid) (pairRequests pid om t)"
  by (cases "pr_planeIssueId t"; cases "pr_asanaTaskGid t") (simp_all add: pairRequests_def)

lemma batchRequests_forProject: "list_all (forProject pid) (batchRequests pid om ts)"
  by (induction ts) (simp_all add: batchRequests_def pairRequests_forProject)

lemma plane_in_pairRequests:
  "PlaneComments pid p \<in> set (pairRequests pid om t) \<longleftrightarrow>
     pr_planeIssueId t = Some p \<and> wanted (Some p) (map_option om_planeIds om)"
  by (cases "pr_planeIssueId t"; cases "pr_asanaTaskGid t") (auto simp: pairRequests_def)

lemma asana_in_pairRequests:
  "AsanaStories a \<in> set (pairRequests pid om t) \<longleftrightarrow>
     pr_asanaTaskGid t = Some a \<and> wanted (Some a) (map_option om_asanaIds om)"
  by (cases "pr_planeIssueId t"; cases "pr_asanaTaskGid t") (auto simp: pairRequests_def)

lemma plane_in_batchRequests:
  "PlaneComments pid p \<in> set (batchRequests pid om ts) \<longleftrightarrow> planeRequested ts om p"
  by (simp add: batchRequests_def planeRequested_def list_ex_iff plane_in_pairRequests)

lemma asana_in_batchRequests:
  "AsanaStories a \<in> set (batchRequests pid om ts) \<longleftrightarrow> asanaRequested ts om a"
  by (simp add: batchRequests_def asanaRequested_def list_ex_iff asana_in_pairRequests)

lemma pairRequests_unwanted:
  assumes "\<not> (wanted (pr_planeIssueId t) (Some (om_planeIds m))
             \<or> wanted (pr_asanaTaskGid t) (Some (om_asanaIds m)))"
  shows "pairRequests pid (Some m) t = []"
  using assms by (auto simp: pairRequests_def split: option.splits)

lemma batchRequests_tasksToFetch:
  "batchRequests pid om (tasksToFetch tasks om) = batchRequests pid om tasks"
proof (cases om)
  case None
  then show ?thesis by (simp add: tasksToFetch_def)
next
  case (Some m)
  have "concat (map (pairRequests pid (Some m))
          (filter (\<lambda>t. wanted (pr_planeIssueId t) (Some (om_planeIds m))
                    \<or> wanted (pr_asanaTaskGid t) (Some (om_asanaIds m))) tasks))
        = concat (map (pairRequests pid (Some m)) tasks)"
    by (induction tasks) (auto simp: pairRequests_unwanted)
  with Some show ?thesis by (simp add: tasksToFetch_def batchRequests_def)
qed

lemma fetch_counts:
  "fst (fetchCommentCountsBatched remote pid tasks om) =
     foldl (settle remote) \<lparr>cc_plane = Map.empty, cc_asana = Map.empty\<rparr>
       (batchRequests pid om tasks)"
  by (simp add: fetchCommentCountsBatched_def fetchBatches_counts batchRequests_tasksToFetch)

lemma fetch_requests:
  "requestsOf (snd (fetchCommentCountsBatched remote pid tasks om)) = batchRequests pid om tasks"
  by (simp add: fetchCommentCountsBatched_def fetchBatches_requests batchRequests_tasksToFetch)

lemma fetch_plane:
  "cc_plane (fst (fetchCommentCountsBatched remote pid tasks om)) p =
     (if planeRequested tasks om p then Some (planeCount remote pid p) else None)"
  using foldl_settle_plane [OF batchRequests_forProject [of pid om tasks]]
  by (simp add: fetch_counts plane_in_batchRequests)

lemma fetch_asana:
  "cc_asana (fst (fetchCommentCountsBatched remote pid tasks om)) a =
     (if asanaRequested tasks om a then Some (asanaCount remote a) else None)"
  by (simp add: fetch_counts foldl_settle_asana asana_in_batchRequests)

text \<open>
  Claim C9. The mappings returned by the fetcher hold exactly the requested identifiers;
  a requested identifier whose call is rejected is recorded with count 0, every other
  requested identifier with the length of its answer, so a rejection neither aborts the
  batch nor the call. For the empty pair list the fetcher returns empty mappings and
  does nothing.
\<close>

theorem C9_fetch_failures:
  "cc_plane (fst (fetchCommentCountsBatched remote pid tasks om)) p =
     (if planeRequested tasks om p
      then (case plane_listComments remote pid p of Some n \<Rightarrow> Some n | None \<Rightarrow> Some 0)
      else None)
   \<and> cc_asana (fst (fetchCommentCountsBatched remote pid tasks om)) a =
     (if asanaRequested tasks om a
      then (case asana_listTaskStories remote a of Some n \<Rightarrow> Some n | None \<Rightarrow> Some 0)
      else None)
   \<and> fetchCommentCountsBatched remote pid [] om =
       (\<lparr>cc_plane = Map.empty, cc_asana = Map.empty\<rparr>, [])"
proof (intro conjI)
  show "cc_plane (fst (fetchCommentCountsBatched remote pid tasks om)) p =
     (if planeRequested tasks om p
      then (case plane_listComments remote pid p of Some n \<Rightarrow> Some n | None \<Rightarrow> Some 0)
      else None)"
    by (simp add: fetch_plane planeCount_def split: option.splits)
  show "cc_asana (fst (fetchCommentCountsBatched remote pid tasks om)) a =
     (if asanaRequested tasks om a
      then (case asana_listTaskStories remote a of Some n \<Rightarrow> Some n | None \<Rightarrow> Some 0)
      else None)"
    by (simp add: fetch_asana asanaCount_def split: option.splits)
  show "fetchCommentCountsBatched remote pid [] om =
       (\<lparr>cc_plane = Map.empty, cc_asana = Map.empty\<rparr>, [])"
  proof -
    have "tasksToFetch [] om = []" by (cases om) (simp_all add: tasksToFetch_def)
    then show ?thesis
      unfolding fetchCommentCountsBatched_def by (subst fetchBatches.simps) simp
  qed
qed

theorem C9_fetch_failures_witness:
  "map (cc_plane (fst (fetchCommentCountsBatched ex_remote_failing ''P'' ex_pairs4 None)))
     [''p1'', ''p2'', ''p3'', ''p4'', ''p5''] = [Some 4, Some 0, Some 4, Some 4, None]
   \<and> map (cc_asana (fst (fetchCommentCountsBatched ex_remote_failing ''P'' ex_pairs4 None)))
     [''a1'', ''a4'', ''a5''] = [Some 5, Some 5, None]"
proof -
  have p: "map (planeRequested ex_pairs4 None) [''p1'', ''p2'', ''p3'', ''p4'', ''p5'']
             = [True, True, True, True, False]"
    by code_simp
  have a: "map (asanaRequested ex_pairs4 None) [''a1'', ''a4'', ''a5''] = [True, True, False]"
    by code_simp
  have r: "map (plane_listComments ex_remote_failing ''P'') [''p1'', ''p2'', ''p3'', ''p4'']
             = [Some 4, None, Some 4, Some 4]"
    by (simp add: ex_remote_failing_def)
  have s: "map (asana_listTaskStories ex_remote_failing) [''a1'', ''a4''] = [Some 5, Some 5]"
    by (simp add: ex_remote_failing_def ex_remote_def)
  show ?thesis
    using p a r s
      C9_fetch_failures [of ex_remote_failing "''P''" ex_pairs4 None "''p1''" "''a1''"]
      C9_fetch_failures [of ex_remote_failing "''P''" ex_pairs4 None "''p2''" "''a4''"]
      C9_fetch_failures [of ex_remote_failing "''P''" ex_pairs4 None "''p3''" "''a5''"]
      C9_fetch_failures [of ex_remote_failing "''P''" ex_pairs4 None "''p4''" "''a5''"]
      C9_fetch_failures [of ex_remote_failing "''P''" ex_pairs4 None "''p5''" "''a5''"]
    by simp
qed

lemma pairRequests_counts:
  "length (filter isPlaneRequest (pairRequests pid om t)) \<le> 1"
  "length (filter (\<lambda>r. \<not> isPlaneRequest r) (pairRequests pid om t)) \<le> 1"
  by (auto simp: pairRequests_def split: option.splits)

lemma batchRequests_plane_count:
  "length (filter isPlaneRequest (batchRequests pid om b)) \<le> length b"
proof (induction b)
  case Nil
  show ?case by (simp add: batchRequests_def)
next
  case (Cons t b)
  have "batchRequests pid om (t # b) = pairRequests pid om t @ batchRequests pid om b"
    by (simp add: batchRequests_def)
  then show ?case using Cons pairRequests_counts(1) [of pid om t] by simp
qed

lemma batchRequests_asana_count:
  "length (filter (\<lambda>r. \<not> isPlaneRequest r) (batchRequests pid om b)) \<le> length b"
proof (induction b)
  case Nil
  show ?case by (simp add: batchRequests_def)
next
  case (Cons t b)
  have "batchRequests pid om (t # b) = pairRequests pid om t @ batchRequests pid om b"
    by (simp add: batchRequests_def)
  then show ?case using Cons pairRequests_counts(2) [of pid om t] by simp
qed

lemma batch_take_limit:
  "batchWithinLimit (Issue (batchRequests pid om (take BATCH_SIZE xs)))"
proof -
  have l: "length (take BATCH_SIZE xs) \<le> 3" by (simp add: BATCH_SIZE_def)
  have "length (filter isPlaneRequest (batchRequests pid om (take BATCH_SIZE xs))) \<le> 3"
    using batchRequests_plane_count [of pid om "take BATCH_SIZE xs"] l by linarith
  moreover
  have "length (filter (\<lambda>r. \<not> isPlaneRequest r) (batchRequests pid om (take BATCH_SIZE xs))) \<le> 3"
    using batchRequests_asana_count [of pid om "take BATCH_SIZE xs"] l by linarith
  ultimately show ?thesis by simp
qed

lemma fetchBatches_events:
  "\<exists>tail. snd (fetchBatches remote pid om ts i (cc, evs)) = evs @ tail
      \<and> paced tail \<and> list_all batchWithinLimit tail \<and> (tail = [] \<longleftrightarrow> \<not> i < length ts)"
proof (induction remote pid om ts i "(cc, evs)" arbitrary: cc evs rule: fetchBatches.induct)
  case (1 remote pid om ts i cc evs)
  show ?case
  proof (cases "i < length ts")
    case False
    then have "snd (fetchBatches remote pid om ts i (cc, evs)) = evs @ []"
      by (subst fetchBatches.simps) simp
    with False show ?thesis by (intro exI [of _ "[]"]) simp
  next
    case True
    define rs where "rs = batchRequests pid om (take BATCH_SIZE (drop i ts))"
    define cc' where "cc' = foldl (settle remote) cc rs"
    define gap where "gap = (if i + BATCH_SIZE < length ts then [Delay BATCH_DELAY] else [])"
    define evs' where "evs' = evs @ [Issue rs, AwaitAll] @ gap"
    have step: "fetchBatches remote pid om ts i (cc, evs) =
                fetchBatches remote pid om ts (i + BATCH_SIZE) (cc', evs')"
      using True by (subst fetchBatches.simps) (simp add: Let_def rs_def cc'_def gap_def evs'_def)
    have "\<exists>tail. snd (fetchBatches remote pid om ts (i + BATCH_SIZE) (cc', evs')) = evs' @ tail
      \<and> paced tail \<and> list_all batchWithinLimit tail \<and> (tail = [] \<longleftrightarrow> \<not> i + BATCH_SIZE < length ts)"
      unfolding cc'_def evs'_def gap_def rs_def
      by (rule "1.hyps" [OF True refl refl refl refl])
    then obtain tail where t: "snd (fetchBatches remote pid om ts (i + BATCH_SIZE) (cc', evs')) = evs' @ tail"
      and p: "paced tail" and l: "list_all batchWithinLimit tail"
      and e: "tail = [] \<longleftrightarrow> \<not> i + BATCH_SIZE < length ts"
      by blast
    define tail' where "tail' = [Issue rs, AwaitAll] @ gap @ tail"
    have a: "snd (fetchBatches remote pid om ts i (cc, evs)) = evs @ tail'"
      unfolding step t by (simp add: evs'_def tail'_def)
    have b: "paced tail'"
    proof (cases "i + BATCH_SIZE < length ts")
      case True
      with e have "tail \<noteq> []" by simp
      with p True show ?thesis by (simp add: tail'_def gap_def BATCH_DELAY_def)
    next
      case False
      with e have "tail = []" by simp
      with False show ?thesis by (simp add: tail'_def gap_def)
    qed
    have c: "list_all batchWithinLimit tail'"
      using l batch_take_limit [of pid om "drop i ts"]
      by (simp add: tail'_def gap_def rs_def del: batchWithinLimit.simps(1))
    have d: "tail' \<noteq> []" by (simp add: tail'_def)
    from a b c d True show ?thesis by (intro exI [of _ tail']) simp
  qed
qed

text \<open>
  Claim C4, as the code has it. A batch holds the requests of at most three pairs, so at
  most three requests to each remote system and at most six in all; every batch is
  awaited as a whole before anything else happens; a delay of 1500 ms follows each batch
  that is not the last, and the next batch is started only after it.
\<close>

theorem C4_batches:
  "paced (snd (fetchCommentCountsBatched remote pid tasks om)) \<and>
   list_all batchWithinLimit (snd (fetchCommentCountsBatched remote pid tasks om))"
  using fetchBatches_events [of remote pid om "tasksToFetch tasks om" 0
          "\<lparr>cc_plane = Map.empty, cc_asana = Map.empty\<rparr>" "[]"]
  unfolding fetchCommentCountsBatched_def by force

theorem C4_batches_witness:
  "snd (fetchCommentCountsBatched ex_remote ''P'' ex_pairs4 None) =
     [Issue [PlaneComments ''P'' ''p1'', AsanaStories ''a1'',
             PlaneComments ''P'' ''p2'', AsanaStories ''a2'',
             PlaneComments ''P'' ''p3'', AsanaStories ''a3''],
      AwaitAll, Delay 1500,
      Issue [PlaneComments ''P'' ''p4'', AsanaStories ''a4''], AwaitAll]
   \<and> paced (snd (fetchCommentCountsBatched ex_remote ''P'' ex_pairs4 None))
   \<and> list_all batchWithinLimit (snd (fetchCommentCountsBatched ex_remote ''P'' ex_pairs4 None))"
proof -
  have "snd (fetchCommentCountsBatched ex_remote ''P'' ex_pairs4 None) =
     [Issue [PlaneComments ''P'' ''p1'', AsanaStories ''a1'',
             PlaneComments ''P'' ''p2'', AsanaStories ''a2'',
             PlaneComments ''P'' ''p3'', AsanaStories ''a3''],
      AwaitAll, Delay 1500,
      Issue [PlaneComments ''P'' ''p4'', AsanaStories ''a4''], AwaitAll]"
    by code_simp
  with C4_batches [of ex_remote "''P''" ex_pairs4 None] show ?thesis by simp
qed

text \<open>
  Claim C4 as stated fails for its bound of three concurrent requests: one batch of
  three fully linked pairs starts six requests before it awaits any of them.
\<close>

theorem C4_counterexample:
  "snd (fetchCommentCountsBatched ex_remote ''P'' ex_pairs3 None) =
     [Issue [PlaneComments ''P'' ''p1'', AsanaStories ''a1'',
             PlaneComments ''P'' ''p2'', AsanaStories ''a2'',
             PlaneComments ''P'' ''p3'', AsanaStories ''a3''],
      AwaitAll]"
  by code_simp

section \<open>Theorems on change detection\<close>

subsection \<open>The loops as maps over the task mappings\<close>

lemma secondPassStep_eq:
  "secondPassStep now cc pim atm snaps (pc, ac, n) tm =
     (pc @ pairPlaneChanges now cc pim atm snaps tm,
      ac @ pairAsanaChanges cc pim atm snaps tm,
      n + (if resolve pim atm tm = Missing then 1 else 0))"
  by (simp add: secondPassStep_def pairPlaneChanges_def pairAsanaChanges_def
           split: resolved.splits option.splits)

lemma secondPass_foldl:
  "foldl (secondPassStep now cc pim atm snaps) (pc, ac, n) tms =
     (pc @ concat (map (pairPlaneChanges now cc pim atm snaps) tms),
      ac @ concat (map (pairAsanaChanges cc pim atm snaps) tms),
      n + length (filter (\<lambda>tm. resolve pim atm tm = Missing) tms))"
  by (induction tms arbitrary: pc ac n) (simp_all add: secondPassStep_eq)

lemma secondPass_eq:
  "secondPass now cc pim atm snaps tms =
     (concat (map (pairPlaneChanges now cc pim atm snaps) tms),
      concat (map (pairAsanaChanges cc pim atm snaps) tms),
      length (filter (\<lambda>tm. resolve pim atm tm = Missing) tms))"
  by (simp add: secondPass_def secondPass_foldl)

lemma planeModified_spec:
  "planeModified iss s = newerOrAbsent (pi_updated_at iss) (sn_planeModifiedAt s)"
proof (cases "sn_planeModifiedAt s")
  case None
  then show ?thesis
    by (cases "pi_updated_at iss") (simp_all add: planeModified_def newerOrAbsent_def)
next
  case (Some d)
  then show ?thesis
    by (cases "pi_updated_at iss"; cases d) (simp_all add: planeModified_def newerOrAbsent_def)
qed

lemma firstPassStep_eq:
  "firstPassStep pim atm snaps (M, A) tm =
     (M \<union> set_option (planeFetchSpec pim atm snaps tm),
      A \<union> set_option (asanaFetchSpec pim atm snaps tm))"
  by (simp add: firstPassStep_def planeFetchSpec_def asanaFetchSpec_def planeModified_spec
           split: resolved.splits option.splits)

lemma set_map_filter_Cons:
  "set (List.map_filter f (x # xs)) = set_option (f x) \<union> set (List.map_filter f xs)"
  by (cases "f x") (simp_all add: List.map_filter_simps)

lemma firstPass_foldl:
  "foldl (firstPassStep pim atm snaps) (M, A) tms =
     (M \<union> set (List.map_filter (planeFetchSpec pim atm snaps) tms),
      A \<union> set (List.map_filter (asanaFetchSpec pim atm snaps) tms))"
proof (induction tms arbitrary: M A)
  case Nil
  then show ?case by (simp add: List.map_filter_simps)
next
  case (Cons tm tms)
  show ?case
    by (simp add: firstPassStep_eq Cons.IH) (auto split: option.splits)
qed

lemma firstPass_eq:
  "firstPass pim atm snaps tms =
     (set (List.map_filter (planeFetchSpec pim atm snaps) tms),
      set (List.map_filter (asanaFetchSpec pim atm snaps) tms))"
  by (simp add: firstPass_def firstPass_foldl)

lemma in_map_filter: "x \<in> set (List.map_filter f xs) \<longleftrightarrow> (\<exists>y \<in> set xs. f y = Some x)"
  by (induction xs) (auto simp: List.map_filter_simps split: option.splits)

lemma resolve_Live_ids:
  "resolve pim atm tm = Live p a iss tsk \<Longrightarrow>
     tm_planeIssueId tm = Some p \<and> tm_asanaTaskGid tm = Some a \<and> p \<noteq> [] \<and> a \<noteq> []
     \<and> pim p = Some iss \<and> atm a = Some tsk"
  by (auto simp: resolve_def split: option.splits if_splits)

lemma planeFetchSpec_id:
  "planeFetchSpec pim atm snaps tm = Some p \<Longrightarrow> tm_planeIssueId tm = Some p \<and> p \<noteq> []"
  by (auto simp: planeFetchSpec_def split: resolved.splits option.splits if_splits
           dest: resolve_Live_ids)

lemma asanaFetchSpec_id:
  "asanaFetchSpec pim atm snaps tm = Some a \<Longrightarrow> tm_asanaTaskGid tm = Some a \<and> a \<noteq> []"
  by (auto simp: asanaFetchSpec_def split: resolved.splits option.splits if_splits
           dest: resolve_Live_ids)


lemma detectChanges_Ok:
  assumes "findProjectMapping db m = Some mapping"
    and "plane_listIssues remote (pm_planeProjectId mapping) = Some issues"
    and "asana_listTasks remote (pm_asanaProjectGid mapping)
           (orNull (pm_asanaSectionName mapping)) = Some tasks"
    and "linkedTaskMappings db m \<noteq> []"
  shows "detectChanges db remote m now =
     (let tms = linkedTaskMappings db m;
          pim = lookupMap pi_id issues;
          atm = lookupMap as_gid tasks;
          snaps = db_snapshots db;
          cce = detectCounts remote (pm_planeProjectId mapping) pim atm snaps tms;
          pcs = concat (map (pairPlaneChanges now (fst cce) pim atm snaps) tms);
          acs = concat (map (pairAsanaChanges (fst cce) pim atm snaps) tms);
          allChanges = filter (\<lambda>c. ch_field c \<noteq> ''new'') (pcs @ acs)
      in ((if allChanges \<noteq> [] then
             db\<lparr>db_changeLog := db_changeLog db @ map (toLogRow m) allChanges,
                db_snapshots :=
                  foldl (updateSnapshotStep (fst cce) pim atm snaps tms)
                    snaps (setOrder (map ch_taskMappingId allChanges))\<rparr>
           else db),
          Ok \<lparr>cr_planeChanges = pcs, cr_asanaChanges = acs,
               cr_summaryPlaneChanges = length pcs,
               cr_summaryAsanaChanges = length acs,
               cr_totalLinked = length tms,
               cr_missing = Some (length (filter (\<lambda>tm. resolve pim atm tm = Missing) tms)),
               cr_logged = Some (length allChanges)\<rparr>,
          snd cce))"
  using assms
  by (simp add: detectChanges_def detectCounts_def Let_def case_prod_beta secondPass_eq
        del: filter_append)


lemma planeRequested_detect:
  assumes "M = set (List.map_filter (planeFetchSpec pim atm snaps) tms)"
  shows "planeRequested (map pairIdsOf tms) (Some \<lparr>om_planeIds = M, om_asanaIds = A\<rparr>) p
           \<longleftrightarrow> p \<in> M"
proof
  assume "planeRequested (map pairIdsOf tms) (Some \<lparr>om_planeIds = M, om_asanaIds = A\<rparr>) p"
  then show "p \<in> M" by (simp add: planeRequested_def wanted_def)
next
  assume "p \<in> M"
  with assms obtain tm where tm: "tm \<in> set tms" "planeFetchSpec pim atm snaps tm = Some p"
    by (auto simp: in_map_filter)
  from planeFetchSpec_id [OF tm(2)] have "tm_planeIssueId tm = Some p" "p \<noteq> []" by simp_all
  with tm(1) \<open>p \<in> M\<close>
  show "planeRequested (map pairIdsOf tms) (Some \<lparr>om_planeIds = M, om_asanaIds = A\<rparr>) p"
    by (auto simp: planeRequested_def wanted_def list_ex_iff pairIdsOf_def)
qed

lemma asanaRequested_detect:
  assumes "A = set (List.map_filter (asanaFetchSpec pim atm snaps) tms)"
  shows "asanaRequested (map pairIdsOf tms) (Some \<lparr>om_planeIds = M, om_asanaIds = A\<rparr>) a
           \<longleftrightarrow> a \<in> A"
proof
  assume "asanaRequested (map pairIdsOf tms) (Some \<lparr>om_planeIds = M, om_asanaIds = A\<rparr>) a"
  then show "a \<in> A" by (simp add: asanaRequested_def wanted_def)
next
  assume "a \<in> A"
  with assms obtain tm where tm: "tm \<in> set tms" "asanaFetchSpec pim atm snaps tm = Some a"
    by (auto simp: in_map_filter)
  from asanaFetchSpec_id [OF tm(2)] have "tm_asanaTaskGid tm = Some a" "a \<noteq> []" by simp_all
  with tm(1) \<open>a \<in> A\<close>
  show "asanaRequested (map pairIdsOf tms) (Some \<lparr>om_planeIds = M, om_asanaIds = A\<rparr>) a"
    by (auto simp: asanaRequested_def wanted_def list_ex_iff pairIdsOf_def)
qed



lemma batchRequests_project:
  assumes "PlaneComments q p \<in> set (batchRequests pid om ts)"
  shows "q = pid"
proof -
  from batchRequests_forProject [of pid om ts] assms
  have "forProject pid (PlaneComments q p)" unfolding list_all_iff by blast
  then show ?thesis by simp
qed

lemma set_batchRequests:
  "set (batchRequests pid om ts) =
     PlaneComments pid ` {p. planeRequested ts om p} \<union> AsanaStories ` {a. asanaRequested ts om a}"
proof (rule set_eqI)
  fix r
  show "r \<in> set (batchRequests pid om ts) \<longleftrightarrow>
        r \<in> PlaneComments pid ` {p. planeRequested ts om p}
              \<union> AsanaStories ` {a. asanaRequested ts om a}"
  proof (cases r)
    case (PlaneComments q p)
    show ?thesis
    proof (cases "q = pid")
      case True
      with PlaneComments show ?thesis by (auto simp: plane_in_batchRequests)
    next
      case False
      with PlaneComments batchRequests_project [of q p pid om ts] show ?thesis by auto
    qed
  next
    case (AsanaStories a)
    then show ?thesis by (auto simp: asana_in_batchRequests)
  qed
qed

lemma detectCounts_requests:
  "set (requestsOf (snd (detectCounts remote pid pim atm snaps tms))) =
     PlaneComments pid ` set (List.map_filter (planeFetchSpec pim atm snaps) tms)
     \<union> AsanaStories ` set (List.map_filter (asanaFetchSpec pim atm snaps) tms)"
  by (auto simp: detectCounts_def Let_def firstPass_eq fetch_requests set_batchRequests
        planeRequested_detect [OF refl] asanaRequested_detect [OF refl])


subsection \<open>Which comment counts are fetched\<close>

text \<open>
  Claim C8, as the code has it. Among the linked pairs whose issue and task are both in
  the fresh bulk listings, change detection requests the Plane comment count for exactly
  the Plane identifiers of pairs that have a snapshot and whose live last-modified
  timestamp is a date strictly newer than the snapshot's, or is absent or empty, or whose
  snapshot has no timestamp; and the Asana comment count for exactly the Asana
  identifiers of pairs whose snapshot records a baseline comment count. A pair without a
  snapshot, and a pair with a record missing from a listing, contributes no request.
\<close>

theorem C8_fetch_decision:
  assumes "findProjectMapping db m = Some mapping"
    and "plane_listIssues remote (pm_planeProjectId mapping) = Some issues"
    and "asana_listTasks remote (pm_asanaProjectGid mapping)
           (orNull (pm_asanaSectionName mapping)) = Some tasks"
  shows "set (requestsOf (snd (snd (detectChanges db remote m now)))) =
     PlaneComments (pm_planeProjectId mapping) `
       set (List.map_filter
              (planeFetchSpec (lookupMap pi_id issues) (lookupMap as_gid tasks) (db_snapshots db))
              (linkedTaskMappings db m))
     \<union> AsanaStories `
       set (List.map_filter
              (asanaFetchSpec (lookupMap pi_id issues) (lookupMap as_gid tasks) (db_snapshots db))
              (linkedTaskMappings db m))"
proof (cases "linkedTaskMappings db m = []")
  case True
  with assms(1) show ?thesis by (simp add: detectChanges_def List.map_filter_simps)
next
  case False
  show ?thesis
    unfolding detectChanges_Ok [OF assms False]
    by (simp add: Let_def detectCounts_requests)
qed

theorem C8_fetch_decision_witness:
  "findProjectMapping ex_db_snap ''m'' = Some ex_mapping \<and>
   plane_listIssues ex_remote (pm_planeProjectId ex_mapping) = Some ex_issues \<and>
   asana_listTasks ex_remote (pm_asanaProjectGid ex_mapping)
     (orNull (pm_asanaSectionName ex_mapping)) = Some ex_tasks \<and>
   set (requestsOf (snd (snd (detectChanges ex_db_snap ex_remote ''m'' 0)))) =
     {PlaneComments ''P'' ''p1'', AsanaStories ''a1''}"
proof -
  have pm: "findProjectMapping ex_db_snap ''m'' = Some ex_mapping"
    by (simp add: findProjectMapping_def ex_db_snap_def ex_db_def ex_mapping_def)
  have li: "plane_listIssues ex_remote (pm_planeProjectId ex_mapping) = Some ex_issues"
    by (simp add: ex_remote_def)
  have lt: "asana_listTasks ex_remote (pm_asanaProjectGid ex_mapping)
              (orNull (pm_asanaSectionName ex_mapping)) = Some ex_tasks"
    by (simp add: ex_remote_def)
  have p: "List.map_filter
             (planeFetchSpec (lookupMap pi_id ex_issues) (lookupMap as_gid ex_tasks)
                (db_snapshots ex_db_snap))
             (linkedTaskMappings ex_db_snap ''m'') = [''p1'']"
    by code_simp
  have a: "List.map_filter
             (asanaFetchSpec (lookupMap pi_id ex_issues) (lookupMap as_gid ex_tasks)
                (db_snapshots ex_db_snap))
             (linkedTaskMappings ex_db_snap ''m'') = [''a1'']"
    by code_simp
  have q: "pm_planeProjectId ex_mapping = ''P''" by (simp add: ex_mapping_def)
  have "set (requestsOf (snd (snd (detectChanges ex_db_snap ex_remote ''m'' 0)))) =
     {PlaneComments ''P'' ''p1'', AsanaStories ''a1''}"
    using C8_fetch_decision [OF pm li lt, of 0] by (auto simp: p a q)
  with pm li lt show ?thesis by simp
qed

text \<open>
  Claim C8 as stated fails for a pair whose Plane issue is no longer listed: its snapshot
  records the baseline Asana comment count 3, yet no request is made. It also fails for
  a live timestamp that is not a date: the comparison with the snapshot's date is false,
  and the Plane comment count is not requested.
\<close>

theorem C8_counterexample:
  "map_option sn_asanaCommentsCount (db_snapshots ex_db_snap ''t1'') = Some (Some 3) \<and>
   requestsOf (snd (snd (detectChanges ex_db_snap ex_remote_missing ''m'' 0))) = [] \<and>
   requestsOf (snd (snd (detectChanges ex_db_snap ex_remote_unparsable ''m'' 0))) =
     [AsanaStories ''a1'']"
  by code_simp

subsection \<open>Pairs without a snapshot\<close>

lemma planeDiff_props:
  assumes "c \<in> set (planeDiff tm iss tsk s cur)"
  shows "ch_taskMappingId c = tm_id tm \<and> ch_field c \<noteq> ''new''"
  using assms
  by (auto simp: planeDiff_def createChange_def Let_def split: if_splits option.splits)

lemma asanaDiff_props:
  assumes "c \<in> set (asanaDiff tm iss tsk s cur)"
  shows "ch_taskMappingId c = tm_id tm \<and> ch_field c \<noteq> ''new''"
  using assms
  by (auto simp: asanaDiff_def createChange_def Let_def split: if_splits option.splits)

lemma pairPlaneChanges_origin:
  assumes "c \<in> set (pairPlaneChanges now cc pim atm snaps tm)"
  shows "ch_taskMappingId c = tm_id tm \<and> (ch_field c \<noteq> ''new'' \<longrightarrow> snaps (tm_id tm) \<noteq> None)"
proof (cases "resolve pim atm tm")
  case Unlinked
  with assms show ?thesis by (simp add: pairPlaneChanges_def)
next
  case Missing
  with assms show ?thesis by (simp add: pairPlaneChanges_def)
next
  case (Live p a iss tsk)
  show ?thesis
  proof (cases "snaps (tm_id tm)")
    case None
    with Live assms show ?thesis
      by (simp add: pairPlaneChanges_def newChange_def createChange_def)
  next
    case (Some s)
    with Live assms have "c \<in> set (planeDiff tm iss tsk s (cc_plane cc p))"
      by (simp add: pairPlaneChanges_def)
    from planeDiff_props [OF this] Some show ?thesis by simp
  qed
qed

lemma pairAsanaChanges_origin:
  assumes "c \<in> set (pairAsanaChanges cc pim atm snaps tm)"
  shows "ch_taskMappingId c = tm_id tm \<and> ch_field c \<noteq> ''new'' \<and> snaps (tm_id tm) \<noteq> None"
proof (cases "resolve pim atm tm")
  case Unlinked
  with assms show ?thesis by (simp add: pairAsanaChanges_def)
next
  case Missing
  with assms show ?thesis by (simp add: pairAsanaChanges_def)
next
  case (Live p a iss tsk)
  show ?thesis
  proof (cases "snaps (tm_id tm)")
    case None
    with Live assms show ?thesis by (simp add: pairAsanaChanges_def)
  next
    case (Some s)
    with Live assms have "c \<in> set (asanaDiff tm iss tsk s (cc_asana cc a))"
      by (simp add: pairAsanaChanges_def)
    from asanaDiff_props [OF this] Some show ?thesis by simp
  qed
qed

lemma updateSnapshotStep_eq:
  "updateSnapshotStep cc pim atm loaded tms store taskId =
     (case writtenSnapshot cc pim atm loaded tms taskId of
        Some v \<Rightarrow> store(taskId \<mapsto> v)
      | None \<Rightarrow> store)"
  by (simp add: updateSnapshotStep_def writtenSnapshot_def Let_def
           split: option.splits resolved.splits)

lemma foldl_updateSnapshotStep:
  "foldl (updateSnapshotStep cc pim atm loaded tms) store ids x =
     (if x \<in> set ids
      then (case writtenSnapshot cc pim atm loaded tms x of
              Some v \<Rightarrow> Some v
            | None \<Rightarrow> store x)
      else store x)"
proof (induction ids arbitrary: store)
  case Nil
  then show ?case by simp
next
  case (Cons i ids)
  note IH = Cons.IH [of "updateSnapshotStep cc pim atm loaded tms store i"]
  show ?case
    by (simp only: foldl_Cons IH) (auto simp: updateSnapshotStep_eq split: option.splits)
qed

lemma set_setOrder: "set (setOrder xs) = set xs"
  by (simp add: setOrder_def)

lemma detectChanges_NotFound:
  "findProjectMapping db m = None \<Longrightarrow> detectChanges db remote m now = (db, NotFound, [])"
  by (simp add: detectChanges_def)

lemma detectChanges_empty:
  assumes "findProjectMapping db m = Some mapping" and "linkedTaskMappings db m = []"
  shows "detectChanges db remote m now =
    (db, Ok \<lparr>cr_planeChanges = [], cr_asanaChanges = [],
              cr_summaryPlaneChanges = 0, cr_summaryAsanaChanges = 0,
              cr_totalLinked = 0, cr_missing = None, cr_logged = None\<rparr>, [])"
  using assms by (simp add: detectChanges_def)

lemma detectChanges_ServerError:
  assumes "findProjectMapping db m = Some mapping" and "linkedTaskMappings db m \<noteq> []"
    and "plane_listIssues remote (pm_planeProjectId mapping) = None
         \<or> asana_listTasks remote (pm_asanaProjectGid mapping)
              (orNull (pm_asanaSectionName mapping)) = None"
  shows "detectChanges db remote m now = (db, ServerError, [])"
proof (cases "plane_listIssues remote (pm_planeProjectId mapping)")
  case None
  with assms(1,2) show ?thesis by (simp add: detectChanges_def)
next
  case (Some issues)
  with assms(3) have "asana_listTasks remote (pm_asanaProjectGid mapping)
              (orNull (pm_asanaSectionName mapping)) = None" by simp
  with assms(1,2) Some show ?thesis by (simp add: detectChanges_def)
qed

lemma detectChanges_cases:
  fixes db :: Db and m :: string and remote :: Remote
  obtains (NotFound) "findProjectMapping db m = None"
  | (Empty) mapping where "findProjectMapping db m = Some mapping"
      and "linkedTaskMappings db m = []"
  | (ServerError) mapping where "findProjectMapping db m = Some mapping"
      and "linkedTaskMappings db m \<noteq> []"
      and "plane_listIssues remote (pm_planeProjectId mapping) = None
           \<or> asana_listTasks remote (pm_asanaProjectGid mapping)
                (orNull (pm_asanaSectionName mapping)) = None"
  | (Listed) mapping issues tasks where "findProjectMapping db m = Some mapping"
      and "linkedTaskMappings db m \<noteq> []"
      and "plane_listIssues remote (pm_planeProjectId mapping) = Some issues"
      and "asana_listTasks remote (pm_asanaProjectGid mapping)
                (orNull (pm_asanaSectionName mapping)) = Some tasks"
proof (cases "findProjectMapping db m")
  case None
  then show ?thesis by (rule NotFound)
next
  case (Some mapping)
  note pm = this
  show ?thesis
  proof (cases "linkedTaskMappings db m = []")
    case True
    with pm show ?thesis by (rule Empty)
  next
    case False
    note ne = this
    show ?thesis
    proof (cases "plane_listIssues remote (pm_planeProjectId mapping)")
      case None
      then show ?thesis using ServerError [OF pm ne] by simp
    next
      case (Some issues)
      note li = this
      show ?thesis
      proof (cases "asana_listTasks remote (pm_asanaProjectGid mapping)
               (orNull (pm_asanaSectionName mapping))")
        case None
        then show ?thesis using ServerError [OF pm ne] by simp
      next
        case (Some tasks)
        then show ?thesis using Listed [OF pm ne li] by simp
      qed
    qed
  qed
qed


text \<open>
  Claim C10. For a task mapping that has no stored snapshot, a detection request leaves
  it without a snapshot, and the rows the request appends to the change log contain no
  "new" entry and no entry of that task mapping.
\<close>

theorem C10_no_snapshot_frame:
  assumes "db_snapshots db tid = None"
  shows "db_snapshots (fst (detectChanges db remote m now)) tid = None \<and>
         (\<exists>rows. db_changeLog (fst (detectChanges db remote m now)) = db_changeLog db @ rows
            \<and> list_all (\<lambda>r. cl_field r \<noteq> ''new'' \<and> cl_taskMappingId r \<noteq> tid) rows)"
proof (cases rule: detectChanges_cases [where db = db and m = m and remote = remote])
  case NotFound
  then have "fst (detectChanges db remote m now) = db"
    by (simp add: detectChanges_NotFound)
  with assms show ?thesis by simp
next
  case (Empty mapping)
  then have "fst (detectChanges db remote m now) = db"
    by (simp add: detectChanges_empty)
  with assms show ?thesis by simp
next
  case (ServerError mapping)
  then have "fst (detectChanges db remote m now) = db"
    by (simp add: detectChanges_ServerError)
  with assms show ?thesis by simp
next
  case ok: (Listed mapping issues tasks)
  define tms where "tms = linkedTaskMappings db m"
  define pim where "pim = lookupMap pi_id issues"
  define atm where "atm = lookupMap as_gid tasks"
  define snaps where "snaps = db_snapshots db"
  define cc where "cc = fst (detectCounts remote (pm_planeProjectId mapping) pim atm snaps tms)"
  define allChanges where "allChanges = filter (\<lambda>c. ch_field c \<noteq> ''new'')
     (concat (map (pairPlaneChanges now cc pim atm snaps) tms)
      @ concat (map (pairAsanaChanges cc pim atm snaps) tms))"
  have fstd: "fst (detectChanges db remote m now) =
    (if allChanges \<noteq> [] then
           db\<lparr>db_changeLog := db_changeLog db @ map (toLogRow m) allChanges,
              db_snapshots :=
                foldl (updateSnapshotStep cc pim atm snaps tms)
                  snaps (setOrder (map ch_taskMappingId allChanges))\<rparr>
         else db)"
    unfolding detectChanges_Ok [OF ok(1,3,4,2)]
    by (simp add: Let_def tms_def pim_def atm_def snaps_def cc_def allChanges_def
          del: filter_append)
  have all: "\<And>c. c \<in> set allChanges \<Longrightarrow> ch_field c \<noteq> ''new'' \<and> ch_taskMappingId c \<noteq> tid"
  proof -
    fix c assume c: "c \<in> set allChanges"
    then have f: "ch_field c \<noteq> ''new''" by (auto simp: allChanges_def)
    from c obtain tm where "tm \<in> set tms"
      and "c \<in> set (pairPlaneChanges now cc pim atm snaps tm)
           \<or> c \<in> set (pairAsanaChanges cc pim atm snaps tm)"
      by (auto simp: allChanges_def)
    with f pairPlaneChanges_origin [of c now cc pim atm snaps tm]
      pairAsanaChanges_origin [of c cc pim atm snaps tm]
    have "ch_taskMappingId c = tm_id tm" "snaps (tm_id tm) \<noteq> None" by blast+
    with assms have "ch_taskMappingId c \<noteq> tid" by (auto simp: snaps_def)
    with f show "ch_field c \<noteq> ''new'' \<and> ch_taskMappingId c \<noteq> tid" by simp
  qed
  have notin: "tid \<notin> set (setOrder (map ch_taskMappingId allChanges))"
    using all by (auto simp: set_setOrder)
  have snap: "db_snapshots (fst (detectChanges db remote m now)) tid = None"
    using assms notin by (simp add: fstd foldl_updateSnapshotStep snaps_def)
  have rows: "list_all (\<lambda>r. cl_field r \<noteq> ''new'' \<and> cl_taskMappingId r \<noteq> tid)
                (map (toLogRow m) allChanges)"
    using all by (simp add: list_all_iff toLogRow_def)
  have log: "db_changeLog (fst (detectChanges db remote m now)) =
             db_changeLog db @ (if allChanges \<noteq> [] then map (toLogRow m) allChanges else [])"
    by (simp add: fstd)
  from rows have "list_all (\<lambda>r. cl_field r \<noteq> ''new'' \<and> cl_taskMappingId r \<noteq> tid)
                (if allChanges \<noteq> [] then map (toLogRow m) allChanges else [])"
    by simp
  with snap log show ?thesis by blast
qed

theorem C10_no_snapshot_frame_witness:
  "db_snapshots ex_db ''t1'' = None \<and>
   db_snapshots (fst (detectChanges ex_db ex_remote ''m'' 7)) ''t1'' = None \<and>
   map ch_field (reportedChanges (fst (snd (detectChanges ex_db ex_remote ''m'' 7)))) =
     [''new''] \<and>
   db_changeLog (fst (detectChanges ex_db ex_remote ''m'' 7)) = []"
proof -
  have n: "db_snapshots ex_db ''t1'' = None" by (simp add: ex_db_def)
  have r: "map ch_field (reportedChanges (fst (snd (detectChanges ex_db ex_remote ''m'' 7)))) =
     [''new'']"
    by code_simp
  have l: "db_changeLog (fst (detectChanges ex_db ex_remote ''m'' 7)) = []"
    by code_simp
  from C10_no_snapshot_frame [OF n, of ex_remote "''m''" 7] n r l show ?thesis by simp
qed

section \<open>Snapshot round trip and repeated detection\<close>

subsection \<open>Snapshots written by takeSnapshot\<close>




















subsection \<open>Two observations of the remote systems\<close>










subsection \<open>The second of two detection requests\<close>
















text \<open>
  The hypothesis on the baseline counts is needed in the model: from a snapshot without
  an Asana baseline the first request stores the count 0 for a changed pair, and the
  second request reports the difference to the five comments of the task.
\<close>

lemma second_run_without_baseline:
  "map ch_field (reportedChanges (fst (snd (detectChanges ex_db_null ex_remote ''m'' 7)))) =
     [''state''] \<and>
   map ch_field
     (reportedChanges
        (fst (snd (detectChanges (fst (detectChanges ex_db_null ex_remote ''m'' 7))
                     ex_remote ''m'' 8)))) = [''comments'']"
  by code_simp

end
